theory Spec2Isabelle
  imports Main "HOL-Library.Word"
begin

section \<open>The plain provisioner's BundleInstance controller\<close>

text \<open>
  A shallow embedding of \<^verbatim>\<open>internal/provisioner/plain/controllers/bundleinstance_controller.go\<close>:
  \<^verbatim>\<open>Reconcile\<close>, \<^verbatim>\<open>getReleaseState\<close>, \<^verbatim>\<open>loadBundle\<close> and the dynamic watch bookkeeping.
  Go's \<^verbatim>\<open>(value, error)\<close> results are sums (\<open>Inl\<close> the error), a nilable error is an
  \<open>error option\<close>, and the objects that Go mutates through pointers are passed and returned.
  The collaborators of the controller (the API client, the bundle storage, the Helm action
  client, the controller's watch facility) and the library functions it calls are fields of
  an environment record: each field gives the outcome of the call at one call site.
\<close>

subsection \<open>Errors\<close>

text \<open>
  The error values the controller tells apart: a Kubernetes API status error whose reason is
  NotFound (\<^verbatim>\<open>apierrors.IsNotFound\<close>), Helm's sentinel \<^verbatim>\<open>driver.ErrReleaseNotFound\<close>, the
  controller's own \<^verbatim>\<open>errBundleNotUnpacked\<close> with its phase, an error wrapped by
  \<^verbatim>\<open>fmt.Errorf("...: %w", err)\<close>, and any other error with its message.
\<close>

datatype error =
    StatusNotFound string
  | ErrReleaseNotFound
  | errBundleNotUnpacked string
  | Wrapf string error
  | ErrorString string

text \<open>\<^verbatim>\<open>errBundleNotUnpacked.Error\<close> (lines 311-317) and the messages of the other errors.\<close>

definition baseError :: string where
  "baseError = ''bundle is not yet unpacked''"

fun Error :: "error \<Rightarrow> string" where
  "Error (StatusNotFound m) = m"
| "Error ErrReleaseNotFound = ''release: not found''"
| "Error (errBundleNotUnpacked currentPhase) =
     (if currentPhase = '''' then baseError
      else baseError @ '', current phase='' @ currentPhase)"
| "Error (Wrapf prefix err) = prefix @ '': '' @ Error err"
| "Error (ErrorString m) = m"

text \<open>\<^verbatim>\<open>apierrors.IsNotFound(err)\<close>: looks through wrapped errors.\<close>

fun IsNotFound :: "error \<Rightarrow> bool" where
  "IsNotFound (StatusNotFound m) = True"
| "IsNotFound (Wrapf prefix err) = IsNotFound err"
| "IsNotFound err = False"

text \<open>\<^verbatim>\<open>errors.Is(err, driver.ErrReleaseNotFound)\<close>.\<close>

fun IsReleaseNotFound :: "error \<Rightarrow> bool" where
  "IsReleaseNotFound ErrReleaseNotFound = True"
| "IsReleaseNotFound (Wrapf prefix err) = IsReleaseNotFound err"
| "IsReleaseNotFound err = False"

text \<open>\<^verbatim>\<open>errors.As(err, &bnuErr)\<close> with \<^verbatim>\<open>bnuErr\<close> a \<^verbatim>\<open>*errBundleNotUnpacked\<close>.\<close>

fun AsBundleNotUnpacked :: "error \<Rightarrow> bool" where
  "AsBundleNotUnpacked (errBundleNotUnpacked currentPhase) = True"
| "AsBundleNotUnpacked (Wrapf prefix err) = AsBundleNotUnpacked err"
| "AsBundleNotUnpacked err = False"

text \<open>\<^verbatim>\<open>client.IgnoreNotFound(err)\<close>, at its call sites always with a non-nil error.\<close>

definition IgnoreNotFound :: "error \<Rightarrow> error option" where
  "IgnoreNotFound err = (if IsNotFound err then None else Some err)"

subsection \<open>Data\<close>

type_synonym byte = "8 word"

datatype ConditionStatus = ConditionTrue | ConditionFalse | ConditionUnknown

record Condition =
  Type :: string
  Status :: ConditionStatus
  Reason :: string
  Message :: string

text \<open>The Bundle of \<^verbatim>\<open>api/v1alpha1\<close>: the controller reads its name and \<^verbatim>\<open>Status.Phase\<close>.\<close>

record Bundle =
  Bundle_Name :: string
  Phase :: string

definition PhasePending :: string where "PhasePending = ''Pending''"
definition PhaseUnpacking :: string where "PhaseUnpacking = ''Unpacking''"
definition PhaseFailing :: string where "PhaseFailing = ''Failing''"
definition PhaseUnpacked :: string where "PhaseUnpacked = ''Unpacked''"

text \<open>
  The BundleInstance: the fields the controller reads and writes (\<^verbatim>\<open>Name\<close>,
  \<^verbatim>\<open>Namespace\<close>, \<^verbatim>\<open>ObjectMeta.ManagedFields\<close>, \<^verbatim>\<open>Spec.BundleName\<close>,
  \<^verbatim>\<open>Status.Conditions\<close>, \<^verbatim>\<open>Status.InstalledBundleName\<close>).
\<close>

record BundleInstance =
  Name :: string
  Namespace :: string
  ManagedFields :: "string list"
  Spec_BundleName :: string
  Status_Conditions :: "Condition list"
  Status_InstalledBundleName :: string

record GroupVersionKind =
  Group :: string
  Version :: string
  Kind :: string

text \<open>A manifest object (\<^verbatim>\<open>unstructured.Unstructured\<close>): kind, identity, labels, and the rest.\<close>

record Object =
  Object_GVK :: GroupVersionKind
  Object_Name :: string
  Object_Namespace :: string
  Labels :: "string \<rightharpoonup> string"
  Content :: string

text \<open>Helm's chart (its templates) and release (manifest text and \<^verbatim>\<open>Info.Status\<close>).\<close>

record File =
  File_Name :: string
  File_Data :: "byte list"

record Chart =
  Templates :: "File list"

record Release =
  Manifest :: string
  Info_Status :: string

text \<open>
  Modelled from the spec: the release statuses of Helm's \<^verbatim>\<open>release\<close> package, a string
  type whose constants are not among the sources; the spec names them \<^verbatim>\<open>deployed\<close>,
  \<^verbatim>\<open>failed\<close> and \<^verbatim>\<open>superseded\<close>.
\<close>

definition StatusFailed :: string where "StatusFailed = ''failed''"
definition StatusSuperseded :: string where "StatusSuperseded = ''superseded''"
definition StatusDeployed :: string where "StatusDeployed = ''deployed''"

text \<open>The \<^verbatim>\<open>releaseState\<close> constants of lines 275-282.\<close>

datatype releaseState = stateNeedsInstall | stateNeedsUpgrade | stateUnchanged | stateError

subsection \<open>Collaborators\<close>

text \<open>
  \<^verbatim>\<open>helmclient.ActionInterface\<close>. The last argument of \<open>clUpgrade\<close> is the \<^verbatim>\<open>DryRun\<close>
  option; \<open>clReconcile\<close> takes the release pointer, which may be nil.
\<close>

record ActionInterface =
  clGet :: "string \<Rightarrow> error + Release"
  clInstall :: "string \<Rightarrow> string \<Rightarrow> Chart \<Rightarrow> error + Release"
  clUpgrade :: "string \<Rightarrow> string \<Rightarrow> Chart \<Rightarrow> bool \<Rightarrow> error + Release"
  clReconcile :: "Release option \<Rightarrow> error option"

text \<open>
  The environment of one pass, one field per call site: the three \<^verbatim>\<open>r.Get\<close> calls (lines
  93, 105 and 321), \<^verbatim>\<open>r.BundleStorage.Load\<close>, \<^verbatim>\<open>yaml.Marshal\<close>, \<^verbatim>\<open>sha256.Sum256\<close>,
  \<^verbatim>\<open>r.ActionClientGetter.ActionClientFor\<close>,
  \<^verbatim>\<open>runtime.DefaultUnstructuredConverter.ToUnstructured\<close>, \<^verbatim>\<open>r.Controller.Watch\<close> and
  \<^verbatim>\<open>r.Status().Patch\<close>.
\<close>

record env =
  getBundleInstance :: "string \<Rightarrow> error + BundleInstance"
  getBundle :: "string \<Rightarrow> error + Bundle"
  loadGetBundle :: "string \<Rightarrow> error + Bundle"
  storageLoad :: "Bundle \<Rightarrow> error + Object list"
  yamlMarshal :: "Object \<Rightarrow> error + byte list"
  Sum256 :: "byte list \<Rightarrow> byte list"
  ActionClientFor :: "BundleInstance \<Rightarrow> error + ActionInterface"
  ToUnstructured :: "Object \<Rightarrow> error + Object"
  controllerWatch :: "Object \<Rightarrow> BundleInstance \<Rightarrow> error option"
  statusPatch :: "BundleInstance \<Rightarrow> error option"

text \<open>The reconciler's own state: the release namespace and the set of watched kinds.\<close>

record Reconciler =
  ReleaseNamespace :: string
  dynamicWatchGVKs :: "GroupVersionKind set"

subsection \<open>Conditions\<close>

text \<open>
  Modelled from the spec: the condition types and reasons of
  \<^verbatim>\<open>api/v1alpha1/bundleinstance_types.go\<close>, which is not among the sources; the values are
  those of the spec's condition vocabulary.
\<close>

definition TypeHasValidBundle :: string where "TypeHasValidBundle = ''HasValidBundle''"
definition TypeInvalidBundleContent :: string where "TypeInvalidBundleContent = ''InvalidBundleContent''"
definition TypeInstalled :: string where "TypeInstalled = ''Installed''"

definition ReasonBundleLookupFailed :: string where "ReasonBundleLookupFailed = ''BundleLookupFailed''"
definition ReasonBundleLoadFailed :: string where "ReasonBundleLoadFailed = ''BundleLoadFailed''"
definition ReasonReadingContentFailed :: string where "ReasonReadingContentFailed = ''ReadingContentFailed''"
definition ReasonErrorGettingClient :: string where "ReasonErrorGettingClient = ''ErrorGettingClient''"
definition ReasonErrorGettingReleaseState :: string where
  "ReasonErrorGettingReleaseState = ''ErrorGettingReleaseState''"
definition ReasonInstallFailed :: string where "ReasonInstallFailed = ''InstallFailed''"
definition ReasonUpgradeFailed :: string where "ReasonUpgradeFailed = ''UpgradeFailed''"
definition ReasonReconcileFailed :: string where "ReasonReconcileFailed = ''ReconcileFailed''"
definition ReasonCreateDynamicWatchFailed :: string where
  "ReasonCreateDynamicWatchFailed = ''CreateDynamicWatchFailed''"
definition ReasonInstallationSucceeded :: string where
  "ReasonInstallationSucceeded = ''InstallationSucceeded''"

text \<open>
  Modelled from the spec: \<^verbatim>\<open>meta.SetStatusCondition\<close> of the Kubernetes library, "conditions
  are upserted by type: setting a condition replaces any prior entry of the same type,
  preserving others". The first entry of the type is updated in place; a new type is
  appended. Transition times are left out.
\<close>

fun SetStatusCondition :: "Condition list \<Rightarrow> Condition \<Rightarrow> Condition list" where
  "SetStatusCondition [] newCondition = [newCondition]"
| "SetStatusCondition (c # cs) newCondition =
     (if Type c = Type newCondition
      then c\<lparr>Status := Status newCondition, Reason := Reason newCondition,
              Message := Message newCondition\<rparr> # cs
      else c # SetStatusCondition cs newCondition)"

text \<open>\<^verbatim>\<open>meta.FindStatusCondition\<close>: the first condition of a type.\<close>

fun FindStatusCondition :: "Condition list \<Rightarrow> string \<Rightarrow> Condition option" where
  "FindStatusCondition [] t = None"
| "FindStatusCondition (c # cs) t = (if Type c = t then Some c else FindStatusCondition cs t)"

text \<open>
  \<^verbatim>\<open>meta.SetStatusCondition(&bi.Status.Conditions, metav1.Condition{Type, Status, Reason,
  Message})\<close> on the BundleInstance of the pass.
\<close>

definition setCondition ::
  "BundleInstance \<Rightarrow> string \<Rightarrow> ConditionStatus \<Rightarrow> string \<Rightarrow> string \<Rightarrow> BundleInstance"
where
  "setCondition bi t s rsn msg =
     bi\<lparr>Status_Conditions :=
          SetStatusCondition (Status_Conditions bi)
            \<lparr>Type = t, Status = s, Reason = rsn, Message = msg\<rparr>\<rparr>"

subsection \<open>Effects\<close>

text \<open>
  What a pass does to the world, in order: the state-changing calls with their outcomes
  (\<open>None\<close> is a nil error) and the error log. A subscription for a kind is established by
  a \<open>WatchCalled\<close> with outcome \<open>None\<close>. The dry-run upgrade persists nothing and is not
  recorded.
\<close>

datatype effect =
    InstallCalled string string Chart "error option"
  | UpgradeCalled string string Chart "error option"
  | ReconcileCalled "Release option" "error option"
  | WatchCalled GroupVersionKind "error option"
  | StatusPatchCalled BundleInstance "error option"
  | LogError string error

text \<open>
  The result of the part of a pass that runs between fetching the BundleInstance and the
  deferred status patch: the returned error, the BundleInstance as mutated in memory, the
  watched kinds, and the effects.
\<close>

type_synonym pass = "error option \<times> BundleInstance \<times> GroupVersionKind set \<times> effect list"

subsection \<open>getReleaseState (lines 284-305)\<close>

definition getReleaseState ::
  "Reconciler \<Rightarrow> ActionInterface \<Rightarrow> BundleInstance \<Rightarrow> Chart
     \<Rightarrow> Release option \<times> releaseState \<times> error option"
where
  "getReleaseState r cl obj chrt =
     (case clGet cl (Name obj) of
        Inl err \<Rightarrow>
          if \<not> IsReleaseNotFound err then (None, stateError, Some err)
          else (None, stateNeedsInstall, None)
      | Inr currentRelease \<Rightarrow>
          (case clUpgrade cl (Name obj) (ReleaseNamespace r) chrt True of
             Inl err \<Rightarrow> (Some currentRelease, stateError, Some err)
           | Inr desiredRelease \<Rightarrow>
               if Manifest desiredRelease \<noteq> Manifest currentRelease \<or>
                  Info_Status currentRelease = StatusFailed \<or>
                  Info_Status currentRelease = StatusSuperseded
               then (Some currentRelease, stateNeedsUpgrade, None)
               else (Some currentRelease, stateUnchanged, None)))"

subsection \<open>loadBundle (lines 319-343)\<close>

text \<open>
  Modelled from the spec: \<^verbatim>\<open>util.MergeMaps\<close> of \<^verbatim>\<open>internal/util\<close>, which is not among the
  sources: it "merges in" the labels of its later argument "without removing any
  pre-existing labels"; on a key of both, the later argument's value stands.
\<close>

definition MergeMaps :: "(string \<rightharpoonup> string) \<Rightarrow> (string \<rightharpoonup> string) \<Rightarrow> (string \<rightharpoonup> string)" where
  "MergeMaps a b = a ++ b"

text \<open>
  \<^verbatim>\<open>%q\<close> of a name. Bundle names are DNS subdomain names, in which \<^verbatim>\<open>strconv.Quote\<close>
  escapes nothing.
\<close>

definition quote :: "string \<Rightarrow> string" where
  "quote s = [CHR 0x22] @ s @ [CHR 0x22]"

definition ownerLabels :: "BundleInstance \<Rightarrow> (string \<rightharpoonup> string)" where
  "ownerLabels bi =
     [''core.rukpak.io/owner-kind'' \<mapsto> ''BundleInstance'',
      ''core.rukpak.io/owner-name'' \<mapsto> Name bi]"

definition loadBundle :: "env \<Rightarrow> BundleInstance \<Rightarrow> error + Object list" where
  "loadBundle e bi =
     (case loadGetBundle e (Spec_BundleName bi) of
        Inl err \<Rightarrow> Inl (Wrapf (''get bundle '' @ quote (Spec_BundleName bi)) err)
      | Inr b \<Rightarrow>
          if Phase b \<noteq> PhaseUnpacked then Inl (errBundleNotUnpacked (Phase b))
          else
            (case storageLoad e b of
               Inl err \<Rightarrow> Inl (Wrapf ''load bundle objects'' err)
             | Inr objects \<Rightarrow>
                 Inr (map (\<lambda>obj. obj\<lparr>Labels := MergeMaps (Labels obj) (ownerLabels bi)\<rparr>)
                        objects)))"

subsection \<open>The chart of a bundle (lines 143-162)\<close>

text \<open>\<^verbatim>\<open>%x\<close> of a byte slice: two lower-case hexadecimal digits per byte.\<close>

definition hexDigit :: "nat \<Rightarrow> char" where
  "hexDigit n = ''0123456789abcdef'' ! (n mod 16)"

fun hexEncode :: "byte list \<Rightarrow> string" where
  "hexEncode [] = []"
| "hexEncode (b # bs) = hexDigit (unat b div 16) # hexDigit (unat b mod 16) # hexEncode bs"

text \<open>\<^verbatim>\<open>fmt.Sprintf("object-%x.yaml", hash[0:8])\<close> with \<^verbatim>\<open>hash := sha256.Sum256(jsonData)\<close>.\<close>

definition templateName :: "env \<Rightarrow> byte list \<Rightarrow> string" where
  "templateName e jsonData =
     (let hash = Sum256 e jsonData
      in ''object-'' @ hexEncode (take 8 hash) @ ''.yaml'')"

text \<open>The loop over the desired objects: it appends one template per object and stops at
  the first object that does not serialize.\<close>

fun materialize :: "env \<Rightarrow> Chart \<Rightarrow> Object list \<Rightarrow> error + Chart" where
  "materialize e chrt [] = Inr chrt"
| "materialize e chrt (obj # objs) =
     (case yamlMarshal e obj of
        Inl err \<Rightarrow> Inl err
      | Inr jsonData \<Rightarrow>
          materialize e
            (chrt\<lparr>Templates := Templates chrt @
                [\<lparr>File_Name = templateName e jsonData, File_Data = jsonData\<rparr>]\<rparr>)
            objs)"

subsection \<open>Dynamic watches (lines 228-265)\<close>

text \<open>
  The closure run under \<^verbatim>\<open>dynamicWatchMutex\<close> (lines 241-256) for one object: the returned
  error, the watched kinds afterwards, and the calls to \<^verbatim>\<open>r.Controller.Watch\<close>.
\<close>

definition ensureWatch ::
  "env \<Rightarrow> BundleInstance \<Rightarrow> GroupVersionKind set \<Rightarrow> Object
     \<Rightarrow> error option \<times> GroupVersionKind set \<times> effect list"
where
  "ensureWatch e bi gvks u =
     (let isWatched = (Object_GVK u \<in> gvks) in
      if \<not> isWatched then
        (case controllerWatch e u bi of
           Some err \<Rightarrow> (Some err, gvks, [WatchCalled (Object_GVK u) (Some err)])
         | None \<Rightarrow> (None, insert (Object_GVK u) gvks, [WatchCalled (Object_GVK u) None]))
      else (None, gvks, []))"

fun watchLoop ::
  "env \<Rightarrow> BundleInstance \<Rightarrow> GroupVersionKind set \<Rightarrow> Object list
     \<Rightarrow> error option \<times> GroupVersionKind set \<times> effect list"
where
  "watchLoop e bi gvks [] = (None, gvks, [])"
| "watchLoop e bi gvks (obj # objs) =
     (case ToUnstructured e obj of
        Inl err \<Rightarrow> (Some err, gvks, [])
      | Inr u \<Rightarrow>
          (case ensureWatch e bi gvks u of
             (Some err, gvks', tr) \<Rightarrow> (Some err, gvks', tr)
           | (None, gvks', tr) \<Rightarrow>
               (case watchLoop e bi gvks' objs of
                  (ret, gvks'', tr') \<Rightarrow> (ret, gvks'', tr @ tr'))))"

subsection \<open>Reconcile (lines 87-273)\<close>

text \<open>Lines 228-272: the watches of the desired objects, then the success condition and the
  installed bundle name.\<close>

definition registerWatches ::
  "env \<Rightarrow> Reconciler \<Rightarrow> BundleInstance \<Rightarrow> Object list \<Rightarrow> effect list \<Rightarrow> pass"
where
  "registerWatches e r bi desiredObjects applied =
     (case watchLoop e bi (dynamicWatchGVKs r) desiredObjects of
        (Some err, gvks, tr) \<Rightarrow>
          (Some err,
           setCondition bi TypeInstalled ConditionFalse ReasonCreateDynamicWatchFailed (Error err),
           gvks, applied @ tr)
      | (None, gvks, tr) \<Rightarrow>
          (None,
           (setCondition bi TypeInstalled ConditionTrue ReasonInstallationSucceeded '''')
             \<lparr>Status_InstalledBundleName := Spec_BundleName bi\<rparr>,
           gvks, applied @ tr))"

text \<open>
  Lines 188-226: the switch on the release state. The install runs with
  \<^verbatim>\<open>CreateNamespace = false\<close>, the upgrade is the real one (\<^verbatim>\<open>DryRun\<close> unset), and the
  \<^verbatim>\<open>default\<close> branch, reached by no state that \<^verbatim>\<open>getReleaseState\<close> returns without an
  error, returns an error and sets no condition.
\<close>

definition applyRelease ::
  "env \<Rightarrow> Reconciler \<Rightarrow> BundleInstance \<Rightarrow> ActionInterface \<Rightarrow> Chart \<Rightarrow> Object list
     \<Rightarrow> Release option \<Rightarrow> releaseState \<Rightarrow> pass"
where
  "applyRelease e r bi cl chrt desiredObjects rel state =
     (case state of
        stateNeedsInstall \<Rightarrow>
          (case clInstall cl (Name bi) (ReleaseNamespace r) chrt of
             Inl err \<Rightarrow>
               (Some err,
                setCondition bi TypeInstalled ConditionFalse ReasonInstallFailed (Error err),
                dynamicWatchGVKs r,
                [InstallCalled (Name bi) (ReleaseNamespace r) chrt (Some err)])
           | Inr installed \<Rightarrow>
               registerWatches e r bi desiredObjects
                 [InstallCalled (Name bi) (ReleaseNamespace r) chrt None])
      | stateNeedsUpgrade \<Rightarrow>
          (case clUpgrade cl (Name bi) (ReleaseNamespace r) chrt False of
             Inl err \<Rightarrow>
               (Some err,
                setCondition bi TypeInstalled ConditionFalse ReasonUpgradeFailed (Error err),
                dynamicWatchGVKs r,
                [UpgradeCalled (Name bi) (ReleaseNamespace r) chrt (Some err)])
           | Inr upgraded \<Rightarrow>
               registerWatches e r bi desiredObjects
                 [UpgradeCalled (Name bi) (ReleaseNamespace r) chrt None])
      | stateUnchanged \<Rightarrow>
          (case clReconcile cl rel of
             Some err \<Rightarrow>
               (Some err,
                setCondition bi TypeInstalled ConditionFalse ReasonReconcileFailed (Error err),
                dynamicWatchGVKs r,
                [ReconcileCalled rel (Some err)])
           | None \<Rightarrow> registerWatches e r bi desiredObjects [ReconcileCalled rel None])
      | stateError \<Rightarrow>
          (Some (ErrorString (''unexpected release state '' @ quote ''Error'')),
           bi, dynamicWatchGVKs r, []))"

text \<open>Lines 164-226: the action client of the BundleInstance, the release state, the switch.\<close>

definition installRelease ::
  "env \<Rightarrow> Reconciler \<Rightarrow> BundleInstance \<Rightarrow> Object list \<Rightarrow> Chart \<Rightarrow> pass"
where
  "installRelease e r bi0 desiredObjects chrt =
     (let res = ActionClientFor e (bi0\<lparr>Namespace := ReleaseNamespace r\<rparr>);
          bi = bi0\<lparr>Namespace := ''''\<rparr>
      in case res of
           Inl err \<Rightarrow>
             (Some err,
              setCondition bi TypeInstalled ConditionFalse ReasonErrorGettingClient (Error err),
              dynamicWatchGVKs r, [])
         | Inr cl \<Rightarrow>
             (case getReleaseState r cl bi chrt of
                (rel, state, Some err) \<Rightarrow>
                  (Some err,
                   setCondition bi TypeInstalled ConditionFalse ReasonErrorGettingReleaseState
                     (Error err),
                   dynamicWatchGVKs r, [])
              | (rel, state, None) \<Rightarrow> applyRelease e r bi cl chrt desiredObjects rel state))"

text \<open>Lines 104-273: the pass on a BundleInstance that was fetched.\<close>

definition reconcileBundleInstance :: "env \<Rightarrow> Reconciler \<Rightarrow> BundleInstance \<Rightarrow> pass" where
  "reconcileBundleInstance e r bi =
     (case getBundle e (Spec_BundleName bi) of
        Inl err \<Rightarrow>
          (let bundleStatus = (if IsNotFound err then ConditionFalse else ConditionUnknown)
           in (IgnoreNotFound err,
               setCondition bi TypeHasValidBundle bundleStatus ReasonBundleLookupFailed (Error err),
               dynamicWatchGVKs r, []))
      | Inr b \<Rightarrow>
          (case loadBundle e bi of
             Inl err \<Rightarrow>
               if AsBundleNotUnpacked err then
                 (let reason = ''BundleUnpack'' @ Phase b;
                      reason = (if Phase b = PhaseUnpacking then ''BundleUnpackRunning'' else reason)
                  in (None, setCondition bi TypeInstalled ConditionFalse reason '''',
                      dynamicWatchGVKs r, []))
               else
                 (Some err,
                  setCondition bi TypeHasValidBundle ConditionFalse ReasonBundleLoadFailed (Error err),
                  dynamicWatchGVKs r, [])
           | Inr desiredObjects \<Rightarrow>
               (case materialize e \<lparr>Templates = []\<rparr> desiredObjects of
                  Inl err \<Rightarrow>
                    (Some err,
                     setCondition bi TypeInvalidBundleContent ConditionTrue
                       ReasonReadingContentFailed (Error err),
                     dynamicWatchGVKs r, [])
                | Inr chrt \<Rightarrow> installRelease e r bi desiredObjects chrt)))"

text \<open>The deferred function (lines 96-102): the status patch of a copy of the BundleInstance
  without its managed fields; a patch error is logged.\<close>

definition deferredPatch :: "env \<Rightarrow> BundleInstance \<Rightarrow> effect list" where
  "deferredPatch e bi0 =
     (let bi = bi0\<lparr>ManagedFields := []\<rparr>
      in case statusPatch e bi of
           Some err \<Rightarrow> [StatusPatchCalled bi (Some err), LogError ''failed to patch status'' err]
         | None \<Rightarrow> [StatusPatchCalled bi None])"

text \<open>
  \<^verbatim>\<open>Reconcile\<close>: the returned error (the \<^verbatim>\<open>ctrl.Result\<close> is empty on every path), the
  BundleInstance at the end of the pass when one was fetched, the reconciler, and the effects.
\<close>

definition Reconcile ::
  "env \<Rightarrow> Reconciler \<Rightarrow> string
     \<Rightarrow> error option \<times> BundleInstance option \<times> Reconciler \<times> effect list"
where
  "Reconcile e r req =
     (case getBundleInstance e req of
        Inl err \<Rightarrow> (IgnoreNotFound err, None, r, [])
      | Inr bi \<Rightarrow>
          (case reconcileBundleInstance e r bi of
             (ret, bi', gvks, tr) \<Rightarrow>
               (ret, Some bi', r\<lparr>dynamicWatchGVKs := gvks\<rparr>, tr @ deferredPatch e bi')))"

subsection \<open>Reading the effects of a pass\<close>

text \<open>An install, upgrade or reconcile call that returned no error.\<close>

fun applySucceeded :: "effect \<Rightarrow> bool" where
  "applySucceeded (InstallCalled name ns chrt None) = True"
| "applySucceeded (UpgradeCalled name ns chrt None) = True"
| "applySucceeded (ReconcileCalled rel None) = True"
| "applySucceeded ev = False"

text \<open>An install, upgrade, reconcile or watch call that returned an error.\<close>

fun callFailed :: "effect \<Rightarrow> bool" where
  "callFailed (InstallCalled name ns chrt (Some err)) = True"
| "callFailed (UpgradeCalled name ns chrt (Some err)) = True"
| "callFailed (ReconcileCalled rel (Some err)) = True"
| "callFailed (WatchCalled k (Some err)) = True"
| "callFailed ev = False"

text \<open>An install, upgrade or reconcile call, whatever it returned.\<close>

fun applyCalled :: "effect \<Rightarrow> bool" where
  "applyCalled (InstallCalled name ns chrt res) = True"
| "applyCalled (UpgradeCalled name ns chrt res) = True"
| "applyCalled (ReconcileCalled rel res) = True"
| "applyCalled ev = False"

fun isStatusPatch :: "effect \<Rightarrow> bool" where
  "isStatusPatch (StatusPatchCalled bi res) = True"
| "isStatusPatch ev = False"

text \<open>The kinds for which a subscription was established, in order.\<close>

fun subscriptions :: "effect list \<Rightarrow> GroupVersionKind list" where
  "subscriptions [] = []"
| "subscriptions (WatchCalled k None # tr) = k # subscriptions tr"
| "subscriptions (ev # tr) = subscriptions tr"

text \<open>
  The watched kinds over the lifetime of the controller process: the map is written only by
  the closure of lines 241-256, so its history is a sequence of runs of that closure, each
  for the object, the BundleInstance and the environment of the pass that runs it.
\<close>

fun ensureWatchAll ::
  "(env \<times> BundleInstance \<times> Object) list \<Rightarrow> GroupVersionKind set
     \<Rightarrow> GroupVersionKind set \<times> effect list"
where
  "ensureWatchAll [] gvks = (gvks, [])"
| "ensureWatchAll ((e, bi, u) # rest) gvks =
     (case ensureWatch e bi gvks u of
        (ret, gvks', tr) \<Rightarrow>
          (case ensureWatchAll rest gvks' of
             (gvks'', tr') \<Rightarrow> (gvks'', tr @ tr')))"

text \<open>The passes of a controller that runs them one after the other, each in its own
  environment.\<close>

fun reconcileAll :: "(env \<times> string) list \<Rightarrow> Reconciler \<Rightarrow> Reconciler \<times> effect list" where
  "reconcileAll [] r = (r, [])"
| "reconcileAll ((e, req) # rest) r =
     (case Reconcile e r req of
        (ret, obi, r', tr) \<Rightarrow>
          (case reconcileAll rest r' of
             (r'', tr') \<Rightarrow> (r'', tr @ tr')))"

text \<open>
  What holds of every pass on a fetched BundleInstance: the installed bundle name is the
  spec's bundle name exactly when the pass returned no error after an apply call succeeded,
  and is left alone otherwise; such a pass made no call that failed; the status patch is not
  among the effects; name and spec are untouched.
\<close>

definition passInv :: "BundleInstance \<Rightarrow> pass \<Rightarrow> bool" where
  "passInv bi p =
     (case p of (ret, bi', gvks, tr) \<Rightarrow>
        Status_InstalledBundleName bi' =
          (if ret = None \<and> (\<exists>ev \<in> set tr. applySucceeded ev)
           then Spec_BundleName bi else Status_InstalledBundleName bi) \<and>
        (ret = None \<and> (\<exists>ev \<in> set tr. applySucceeded ev) \<longrightarrow>
           (\<forall>ev \<in> set tr. \<not> callFailed ev)) \<and>
        (\<forall>ev \<in> set tr. \<not> isStatusPatch ev) \<and>
        Name bi' = Name bi \<and> Spec_BundleName bi' = Spec_BundleName bi)"

text \<open>The value of a hexadecimal digit, to read \<open>hexEncode\<close> back.\<close>

definition hexValue :: "char \<Rightarrow> nat" where
  "hexValue c = (if of_char c < (58::nat) then of_char c - 48 else of_char c - 87)"

subsection \<open>A cluster to run passes on\<close>

text \<open>
  The setting of the spec's end-to-end scenarios: BundleInstance \<^verbatim>\<open>inst-a\<close> names Bundle
  \<^verbatim>\<open>pkg-a\<close>, whose storage holds two objects. The outcomes that vary between scenarios (the
  fetch of the BundleInstance, the fetch of the Bundle, the release lookup, the dry run, the
  apply call, the watch and the status patch) are arguments. The digest is a stand-in of the
  right length: the sum of the bytes, then zeros.
\<close>

definition inst_a :: BundleInstance where
  "inst_a =
     \<lparr>Name = ''inst-a'', Namespace = '''', ManagedFields = [''kubectl''],
      Spec_BundleName = ''pkg-a'', Status_Conditions = [], Status_InstalledBundleName = ''''\<rparr>"

definition pkg_a :: "string \<Rightarrow> Bundle" where
  "pkg_a phase = \<lparr>Bundle_Name = ''pkg-a'', Phase = phase\<rparr>"

definition configMap :: GroupVersionKind where
  "configMap = \<lparr>Group = '''', Version = ''v1'', Kind = ''ConfigMap''\<rparr>"

definition cm_a :: Object where
  "cm_a =
     \<lparr>Object_GVK = configMap, Object_Name = ''cm-a'', Object_Namespace = ''ns-a'',
      Labels = [''app'' \<mapsto> ''a''], Content = ''a: 1''\<rparr>"

definition cm_b :: Object where
  "cm_b =
     \<lparr>Object_GVK = configMap, Object_Name = ''cm-b'', Object_Namespace = ''ns-a'',
      Labels = Map.empty, Content = ''b: 2''\<rparr>"

definition release_a :: "string \<Rightarrow> string \<Rightarrow> Release" where
  "release_a manifest status = \<lparr>Manifest = manifest, Info_Status = status\<rparr>"

definition helm :: "error + Release \<Rightarrow> error + Release \<Rightarrow> error option \<Rightarrow> ActionInterface" where
  "helm current desired applied =
     \<lparr>clGet = (\<lambda>name. current),
      clInstall = (\<lambda>name ns chrt.
        case applied of Some err \<Rightarrow> Inl err | None \<Rightarrow> Inr (release_a ''m1'' StatusDeployed)),
      clUpgrade = (\<lambda>name ns chrt dryRun.
        if dryRun then desired
        else case applied of Some err \<Rightarrow> Inl err | None \<Rightarrow> Inr (release_a ''m2'' StatusDeployed)),
      clReconcile = (\<lambda>rel. applied)\<rparr>"

definition cluster ::
  "error + BundleInstance \<Rightarrow> error + Bundle \<Rightarrow> ActionInterface \<Rightarrow> error option \<Rightarrow> error option
     \<Rightarrow> env"
where
  "cluster bi b cl watched patched =
     \<lparr>getBundleInstance = (\<lambda>name. bi),
      getBundle = (\<lambda>name. b),
      loadGetBundle = (\<lambda>name. b),
      storageLoad = (\<lambda>b. Inr [cm_a, cm_b]),
      yamlMarshal = (\<lambda>obj. Inr (map of_char (Object_Name obj))),
      Sum256 = (\<lambda>d. sum_list d # replicate 31 0),
      ActionClientFor = (\<lambda>bi. Inr cl),
      ToUnstructured = (\<lambda>obj. Inr obj),
      controllerWatch = (\<lambda>u bi. watched),
      statusPatch = (\<lambda>bi. patched)\<rparr>"

definition reconciler :: Reconciler where
  "reconciler = \<lparr>ReleaseNamespace = ''rukpak-system'', dynamicWatchGVKs = {}\<rparr>"

text \<open>\<^verbatim>\<open>inst-a\<close> as the cluster holds it after a pass that installed \<^verbatim>\<open>pkg-a\<close>.\<close>

definition inst_a_installed :: BundleInstance where
  "inst_a_installed =
     inst_a\<lparr>Status_Conditions :=
              [\<lparr>Type = TypeInstalled, Status = ConditionTrue,
                Reason = ReasonInstallationSucceeded, Message = ''''\<rparr>],
            Status_InstalledBundleName := ''pkg-a''\<rparr>"

section \<open>Properties\<close>

subsection \<open>Conditions are upserted by type\<close>

lemma FindStatusCondition_set_same:
  "FindStatusCondition (SetStatusCondition cs n) (Type n) = Some n"
  by (induction cs) auto

lemma FindStatusCondition_set_other:
  "t \<noteq> Type n \<Longrightarrow> FindStatusCondition (SetStatusCondition cs n) t = FindStatusCondition cs t"
  by (induction cs) auto

lemma find_setCondition_same:
  "FindStatusCondition (Status_Conditions (setCondition bi t s rsn msg)) t =
     Some \<lparr>Type = t, Status = s, Reason = rsn, Message = msg\<rparr>"
  using FindStatusCondition_set_same [of "Status_Conditions bi" "\<lparr>Type = t, Status = s, Reason = rsn, Message = msg\<rparr>"]
  by (simp add: setCondition_def)

lemma find_setCondition_other:
  "t' \<noteq> t \<Longrightarrow>
   FindStatusCondition (Status_Conditions (setCondition bi t s rsn msg)) t' =
     FindStatusCondition (Status_Conditions bi) t'"
  by (simp add: setCondition_def FindStatusCondition_set_other)

lemma setCondition_fields:
  "Name (setCondition bi t s rsn msg) = Name bi"
  "Namespace (setCondition bi t s rsn msg) = Namespace bi"
  "ManagedFields (setCondition bi t s rsn msg) = ManagedFields bi"
  "Spec_BundleName (setCondition bi t s rsn msg) = Spec_BundleName bi"
  "Status_InstalledBundleName (setCondition bi t s rsn msg) = Status_InstalledBundleName bi"
  by (simp_all add: setCondition_def)

lemma condition_types_distinct:
  "TypeHasValidBundle \<noteq> TypeInstalled"
  "TypeHasValidBundle \<noteq> TypeInvalidBundleContent"
  "TypeInvalidBundleContent \<noteq> TypeInstalled"
  by (simp_all add: TypeHasValidBundle_def TypeInstalled_def TypeInvalidBundleContent_def)

subsection \<open>The stages of a pass\<close>

lemma ensureWatch_trace:
  "ensureWatch e bi gvks u = (ret, gvks', tr) \<Longrightarrow> ev \<in> set tr \<Longrightarrow>
     ev = WatchCalled (Object_GVK u) ret"
  by (auto simp: ensureWatch_def split: if_splits option.splits)

lemma watchLoop_trace:
  "watchLoop e bi gvks objs = (ret, gvks', tr) \<Longrightarrow> ev \<in> set tr \<Longrightarrow>
     \<exists>k res. ev = WatchCalled k res \<and> (ret = None \<longrightarrow> res = None)"
proof (induction objs arbitrary: gvks ret gvks' tr)
  case Nil
  then show ?case by simp
next
  case (Cons obj objs)
  show ?case
  proof (cases "ToUnstructured e obj")
    case (Inl err)
    with Cons.prems show ?thesis by simp
  next
    case (Inr u)
    obtain ret1 gvks1 tr1 where step: "ensureWatch e bi gvks u = (ret1, gvks1, tr1)"
      by (cases "ensureWatch e bi gvks u") auto
    show ?thesis
    proof (cases ret1)
      case (Some err)
      with Cons.prems Inr step have "ret = Some err" "tr = tr1" by auto
      with Cons.prems(2) step Some show ?thesis
        by (auto dest: ensureWatch_trace)
    next
      case None
      obtain ret2 gvks2 tr2 where rest: "watchLoop e bi gvks1 objs = (ret2, gvks2, tr2)"
        by (cases "watchLoop e bi gvks1 objs") auto
      with Cons.prems Inr step None have eq: "ret = ret2" "tr = tr1 @ tr2" by auto
      from Cons.prems(2) eq consider "ev \<in> set tr1" | "ev \<in> set tr2" by auto
      then show ?thesis
      proof cases
        case 1
        with step None show ?thesis by (auto dest: ensureWatch_trace)
      next
        case 2
        with Cons.IH [OF rest] eq show ?thesis by auto
      qed
    qed
  qed
qed

lemma watchLoop_events:
  assumes "watchLoop e bi gvks objs = (ret, gvks', tr)"
  shows "\<forall>ev \<in> set tr. \<not> applySucceeded ev"
    and "\<forall>ev \<in> set tr. \<not> isStatusPatch ev"
    and "ret = None \<Longrightarrow> \<forall>ev \<in> set tr. \<not> callFailed ev"
  using watchLoop_trace [OF assms] by fastforce+

lemma applySucceeded_not_failed:
  "applySucceeded a \<Longrightarrow> \<not> callFailed a \<and> \<not> isStatusPatch a"
  by (induction a rule: applySucceeded.induct) simp_all

lemma registerWatches_inv:
  assumes "applySucceeded a"
  shows "passInv bi (registerWatches e r bi objs [a])"
proof -
  obtain ret gvks tr where w: "watchLoop e bi (dynamicWatchGVKs r) objs = (ret, gvks, tr)"
    by (cases "watchLoop e bi (dynamicWatchGVKs r) objs") auto
  note ev = watchLoop_events [OF w]
  note a = applySucceeded_not_failed [OF assms]
  show ?thesis
  proof (cases ret)
    case None
    with ev(3) have "\<forall>ev \<in> set tr. \<not> callFailed ev" by simp
    with None ev(2) a assms show ?thesis
      by (simp add: passInv_def registerWatches_def w setCondition_fields)
  next
    case (Some err)
    with ev(2) a show ?thesis
      by (simp add: passInv_def registerWatches_def w setCondition_fields)
  qed
qed

lemma passInv_failed:
  "ret \<noteq> None \<Longrightarrow> (\<forall>ev \<in> set tr. \<not> isStatusPatch ev) \<Longrightarrow>
   passInv bi (ret, setCondition bi t s rsn msg, gvks, tr)"
  by (auto simp add: passInv_def setCondition_fields)

lemma passInv_waiting:
  "passInv bi (ret, setCondition bi t s rsn msg, gvks, [])"
  by (simp add: passInv_def setCondition_fields)

lemma applyRelease_inv:
  "passInv bi (applyRelease e r bi cl chrt objs rel state)"
proof (cases state)
  case stateNeedsInstall
  then show ?thesis
    by (cases "clInstall cl (Name bi) (ReleaseNamespace r) chrt")
       (simp_all add: applyRelease_def registerWatches_inv passInv_failed)
next
  case stateNeedsUpgrade
  then show ?thesis
    by (cases "clUpgrade cl (Name bi) (ReleaseNamespace r) chrt False")
       (simp_all add: applyRelease_def registerWatches_inv passInv_failed)
next
  case stateUnchanged
  then show ?thesis
    by (cases "clReconcile cl rel")
       (simp_all add: applyRelease_def registerWatches_inv passInv_failed)
next
  case stateError
  then show ?thesis
    by (simp add: applyRelease_def passInv_def)
qed

lemma passInv_Namespace:
  "passInv (bi\<lparr>Namespace := ns\<rparr>) p \<Longrightarrow> passInv bi p"
  by (cases p) (simp add: passInv_def)

lemma installRelease_inv:
  "passInv bi (installRelease e r bi objs chrt)"
proof (cases "ActionClientFor e (bi\<lparr>Namespace := ReleaseNamespace r\<rparr>)")
  case (Inl err)
  then show ?thesis
    by (simp add: installRelease_def passInv_Namespace [OF passInv_failed])
next
  case (Inr cl)
  obtain rel state ret where st:
    "getReleaseState r cl (bi\<lparr>Namespace := []\<rparr>) chrt = (rel, state, ret)"
    by (cases "getReleaseState r cl (bi\<lparr>Namespace := []\<rparr>) chrt") auto
  show ?thesis
  proof (cases ret)
    case None
    with Inr st show ?thesis
      by (simp add: installRelease_def passInv_Namespace [OF applyRelease_inv])
  next
    case (Some err)
    with Inr st show ?thesis
      by (simp add: installRelease_def passInv_Namespace [OF passInv_failed])
  qed
qed

lemma reconcileBundleInstance_inv:
  "passInv bi (reconcileBundleInstance e r bi)"
proof (cases "getBundle e (Spec_BundleName bi)")
  case (Inl err)
  then show ?thesis
    by (simp add: reconcileBundleInstance_def passInv_waiting)
next
  case (Inr b)
  show ?thesis
  proof (cases "loadBundle e bi")
    case (Inl err)
    with Inr show ?thesis
      by (simp add: reconcileBundleInstance_def passInv_waiting Let_def)
  next
    case loaded: (Inr objs)
    show ?thesis
    proof (cases "materialize e \<lparr>Templates = []\<rparr> objs")
      case (Inl err)
      with Inr loaded show ?thesis
        by (simp add: reconcileBundleInstance_def passInv_waiting)
    next
      case chart: (Inr chrt)
      with Inr loaded show ?thesis
        by (simp add: reconcileBundleInstance_def installRelease_inv)
    qed
  qed
qed


subsection \<open>The watched kinds\<close>

lemma subscriptions_append:
  "subscriptions (xs @ ys) = subscriptions xs @ subscriptions ys"
  by (induction xs rule: subscriptions.induct) simp_all

lemma ensureWatch_cases:
  "ensureWatch e bi gvks u =
     (if Object_GVK u \<in> gvks then (None, gvks, [])
      else case controllerWatch e u bi of
             Some err \<Rightarrow> (Some err, gvks, [WatchCalled (Object_GVK u) (Some err)])
           | None \<Rightarrow> (None, insert (Object_GVK u) gvks, [WatchCalled (Object_GVK u) None]))"
  by (simp add: ensureWatch_def)

lemma ensureWatch_registry:
  assumes "ensureWatch e bi gvks u = (ret, gvks', tr)"
  shows "gvks' = gvks \<union> set (subscriptions tr)"
    and "distinct (subscriptions tr)"
    and "set (subscriptions tr) \<inter> gvks = {}"
proof -
  have "snd (ensureWatch e bi gvks u) =
          (gvks \<union> set (subscriptions (snd (snd (ensureWatch e bi gvks u)))),
           snd (snd (ensureWatch e bi gvks u))) \<and>
        distinct (subscriptions (snd (snd (ensureWatch e bi gvks u)))) \<and>
        set (subscriptions (snd (snd (ensureWatch e bi gvks u)))) \<inter> gvks = {}"
    by (cases "controllerWatch e u bi") (simp_all add: ensureWatch_cases)
  with assms show "gvks' = gvks \<union> set (subscriptions tr)" "distinct (subscriptions tr)"
    "set (subscriptions tr) \<inter> gvks = {}" by simp_all
qed

lemma ensureWatchAll_registry:
  "ensureWatchAll runs gvks = (gvks', tr) \<Longrightarrow>
     gvks' = gvks \<union> set (subscriptions tr) \<and> distinct (subscriptions tr) \<and>
     set (subscriptions tr) \<inter> gvks = {}"
proof (induction runs arbitrary: gvks gvks' tr)
  case Nil
  then show ?case by simp
next
  case (Cons run runs)
  obtain e bi u where run: "run = (e, bi, u)" by (cases run) auto
  obtain ret gvks1 tr1 where step: "ensureWatch e bi gvks u = (ret, gvks1, tr1)"
    by (cases "ensureWatch e bi gvks u") auto
  obtain gvks2 tr2 where rest: "ensureWatchAll runs gvks1 = (gvks2, tr2)"
    by (cases "ensureWatchAll runs gvks1") auto
  from Cons.prems run step rest have eq: "gvks' = gvks2" "tr = tr1 @ tr2" by auto
  note s = ensureWatch_registry [OF step]
  from Cons.IH [OF rest] have r:
    "gvks2 = gvks1 \<union> set (subscriptions tr2)" "distinct (subscriptions tr2)"
    "set (subscriptions tr2) \<inter> gvks1 = {}" by auto
  from s r show ?case unfolding eq subscriptions_append by auto
qed

lemma watchLoop_failed_watch:
  "watchLoop e bi gvks objs = (ret, gvks', tr) \<Longrightarrow> WatchCalled k (Some err) \<in> set tr \<Longrightarrow>
     ret = Some err \<and> k \<notin> gvks'"
proof (induction objs arbitrary: gvks ret gvks' tr)
  case Nil
  then show ?case by simp
next
  case (Cons obj objs)
  show ?case
  proof (cases "ToUnstructured e obj")
    case (Inl err')
    with Cons.prems show ?thesis by simp
  next
    case (Inr u)
    obtain ret1 gvks1 tr1 where step: "ensureWatch e bi gvks u = (ret1, gvks1, tr1)"
      by (cases "ensureWatch e bi gvks u") auto
    show ?thesis
    proof (cases ret1)
      case (Some err1)
      with Cons.prems Inr step have "ret = Some err1" "tr = tr1" "gvks' = gvks1" by auto
      with Cons.prems(2) step Some show ?thesis
        by (auto simp: ensureWatch_def split: if_splits option.splits)
    next
      case None
      obtain ret2 gvks2 tr2 where rest: "watchLoop e bi gvks1 objs = (ret2, gvks2, tr2)"
        by (cases "watchLoop e bi gvks1 objs") auto
      with Cons.prems Inr step None have eq: "ret = ret2" "tr = tr1 @ tr2" "gvks' = gvks2"
        by auto
      from step None have "WatchCalled k (Some err) \<notin> set tr1"
        by (auto simp: ensureWatch_def split: if_splits option.splits)
      with Cons.prems(2) eq have "WatchCalled k (Some err) \<in> set tr2" by auto
      with Cons.IH [OF rest] eq show ?thesis by auto
    qed
  qed
qed

subsection \<open>Owner labels\<close>

lemma MergeMaps_ownerLabels:
  "MergeMaps m (ownerLabels bi) ''core.rukpak.io/owner-kind'' = Some ''BundleInstance''"
  "MergeMaps m (ownerLabels bi) ''core.rukpak.io/owner-name'' = Some (Name bi)"
  "k \<noteq> ''core.rukpak.io/owner-kind'' \<Longrightarrow> k \<noteq> ''core.rukpak.io/owner-name'' \<Longrightarrow>
     MergeMaps m (ownerLabels bi) k = m k"
  "dom (MergeMaps m (ownerLabels bi)) =
     dom m \<union> {''core.rukpak.io/owner-kind'', ''core.rukpak.io/owner-name''}"
  by (auto simp: MergeMaps_def ownerLabels_def map_add_def split: option.splits if_splits)

subsection \<open>Template names\<close>

lemma materialize_templates:
  "materialize e chrt objs = Inr chrt' \<Longrightarrow>
     \<exists>ds. map (yamlMarshal e) objs = map Inr ds \<and>
          Templates chrt' =
            Templates chrt @ map (\<lambda>d. \<lparr>File_Name = templateName e d, File_Data = d\<rparr>) ds"
proof (induction objs arbitrary: chrt)
  case Nil
  then show ?case by simp
next
  case (Cons obj objs)
  show ?case
  proof (cases "yamlMarshal e obj")
    case (Inl err)
    with Cons.prems show ?thesis by simp
  next
    case (Inr d)
    with Cons.prems have
      "materialize e (chrt\<lparr>Templates := Templates chrt @
          [\<lparr>File_Name = templateName e d, File_Data = d\<rparr>]\<rparr>) objs = Inr chrt'"
      by simp
    from Cons.IH [OF this] obtain ds where
      "map (yamlMarshal e) objs = map Inr ds"
      "Templates chrt' = (Templates chrt @ [\<lparr>File_Name = templateName e d, File_Data = d\<rparr>]) @
          map (\<lambda>d. \<lparr>File_Name = templateName e d, File_Data = d\<rparr>) ds"
      by auto
    with Inr show ?thesis
      by (intro exI [of _ "d # ds"]) simp
  qed
qed

lemma hexValue_hexDigit_all: "\<forall>n \<in> set [0..<16]. hexValue (hexDigit n) = n"
  by code_simp

lemma hexValue_hexDigit: "n < 16 \<Longrightarrow> hexValue (hexDigit n) = n"
  using hexValue_hexDigit_all by simp

lemma hexDigit_inj: "a < 16 \<Longrightarrow> b < 16 \<Longrightarrow> hexDigit a = hexDigit b \<Longrightarrow> a = b"
  by (metis hexValue_hexDigit)

lemma hexEncode_byte_inj:
  fixes a b :: byte
  assumes "hexDigit (unat a div 16) = hexDigit (unat b div 16)"
      and "hexDigit (unat a mod 16) = hexDigit (unat b mod 16)"
  shows "a = b"
proof -
  have "unat a < 2 ^ LENGTH(8)" "unat b < 2 ^ LENGTH(8)"
    by (rule unsigned_less)+
  then have "unat a < 256" "unat b < 256" by simp_all
  then have "unat a div 16 < 16" "unat b div 16 < 16" by simp_all
  then have d: "unat a div 16 = unat b div 16" using assms(1) by (rule hexDigit_inj)
  have "unat a mod 16 = unat b mod 16"
    using assms(2) by (intro hexDigit_inj) simp_all
  with d have "unat a = unat b" by (metis div_mult_mod_eq)
  then show ?thesis by (simp add: word_unat_eq_iff)
qed

lemma hexEncode_inj: "hexEncode xs = hexEncode ys \<Longrightarrow> xs = ys"
proof (induction xs arbitrary: ys)
  case Nil
  then show ?case by (cases ys) simp_all
next
  case (Cons x xs)
  then show ?case
    by (cases ys) (auto dest: hexEncode_byte_inj)
qed

lemma templateName_eq_iff:
  "templateName e d1 = templateName e d2 \<longleftrightarrow> take 8 (Sum256 e d1) = take 8 (Sum256 e d2)"
  by (auto simp: templateName_def Let_def dest: hexEncode_inj)

lemma length_hexEncode: "length (hexEncode bs) = 2 * length bs"
  by (induction bs) simp_all

lemma templateName_length: "length (templateName e d) \<le> 28"
  by (simp add: templateName_def Let_def length_hexEncode)

lemma templateName_collision: "\<exists>d1 d2. d1 \<noteq> d2 \<and> templateName e d1 = templateName e d2"
proof -
  have "finite {xs :: string. set xs \<subseteq> UNIV \<and> length xs \<le> 28}"
    by (rule finite_lists_length_le) simp
  moreover have "range (templateName e) \<subseteq> {xs. set xs \<subseteq> UNIV \<and> length xs \<le> 28}"
    using templateName_length by auto
  ultimately have fin: "finite (range (templateName e))" by (rule rev_finite_subset)
  have "\<not> inj (templateName e)"
  proof
    assume "inj (templateName e)"
    with fin have "finite (UNIV :: byte list set)" by (rule finite_imageD)
    then show False using infinite_UNIV_listI by blast
  qed
  then show ?thesis by (auto simp: inj_on_def)
qed

subsection \<open>The status patch does not steer the pass\<close>

lemma materialize_statusPatch:
  "materialize (e\<lparr>statusPatch := p\<rparr>) chrt objs = materialize e chrt objs"
  by (induction objs arbitrary: chrt) (simp_all add: templateName_def split: sum.splits)

lemma ensureWatch_statusPatch:
  "ensureWatch (e\<lparr>statusPatch := p\<rparr>) bi gvks u = ensureWatch e bi gvks u"
  by (simp add: ensureWatch_def)

lemma watchLoop_statusPatch:
  "watchLoop (e\<lparr>statusPatch := p\<rparr>) bi gvks objs = watchLoop e bi gvks objs"
  by (induction objs arbitrary: gvks)
     (simp_all add: ensureWatch_statusPatch split: sum.splits prod.splits option.splits)

lemma reconcileBundleInstance_statusPatch:
  "reconcileBundleInstance (e\<lparr>statusPatch := p\<rparr>) r bi = reconcileBundleInstance e r bi"
  by (simp add: reconcileBundleInstance_def installRelease_def applyRelease_def
        registerWatches_def loadBundle_def materialize_statusPatch watchLoop_statusPatch
      cong: sum.case_cong option.case_cong prod.case_cong releaseState.case_cong if_cong)

subsection \<open>A failed watch ends the pass\<close>

lemma registerWatches_failed_watch:
  assumes "registerWatches e r bi objs [a] = (ret, bi', gvks, tr)"
      and "applySucceeded a"
      and "WatchCalled k (Some err) \<in> set tr"
  shows "ret = Some err \<and> k \<notin> gvks \<and>
         bi' = setCondition bi TypeInstalled ConditionFalse ReasonCreateDynamicWatchFailed (Error err)"
proof -
  obtain ret0 gvks0 tr0 where w: "watchLoop e bi (dynamicWatchGVKs r) objs = (ret0, gvks0, tr0)"
    by (cases "watchLoop e bi (dynamicWatchGVKs r) objs") auto
  from assms(2) have "a \<noteq> WatchCalled k (Some err)" by auto
  moreover from assms(1) w have "tr = a # tr0"
    by (cases ret0) (simp_all add: registerWatches_def)
  ultimately have "WatchCalled k (Some err) \<in> set tr0" using assms(3) by simp
  from watchLoop_failed_watch [OF w this] have "ret0 = Some err" "k \<notin> gvks0" by simp_all
  with assms(1) w show ?thesis by (auto simp: registerWatches_def)
qed

lemma applyRelease_failed_watch:
  assumes "applyRelease e r bi cl chrt objs rel state = (ret, bi', gvks, tr)"
      and "WatchCalled k (Some err) \<in> set tr"
  shows "ret = Some err \<and> k \<notin> gvks \<and>
         bi' = setCondition bi TypeInstalled ConditionFalse ReasonCreateDynamicWatchFailed (Error err)"
proof (cases state)
  case stateNeedsInstall
  show ?thesis
  proof (cases "clInstall cl (Name bi) (ReleaseNamespace r) chrt")
    case (Inl e1)
    with assms stateNeedsInstall show ?thesis by (auto simp: applyRelease_def)
  next
    case (Inr rl)
    with assms stateNeedsInstall show ?thesis
      by (intro registerWatches_failed_watch [where a = "InstallCalled (Name bi) (ReleaseNamespace r) chrt None"])
         (simp_all add: applyRelease_def)
  qed
next
  case stateNeedsUpgrade
  show ?thesis
  proof (cases "clUpgrade cl (Name bi) (ReleaseNamespace r) chrt False")
    case (Inl e1)
    with assms stateNeedsUpgrade show ?thesis by (auto simp: applyRelease_def)
  next
    case (Inr rl)
    with assms stateNeedsUpgrade show ?thesis
      by (intro registerWatches_failed_watch [where a = "UpgradeCalled (Name bi) (ReleaseNamespace r) chrt None"])
         (simp_all add: applyRelease_def)
  qed
next
  case stateUnchanged
  show ?thesis
  proof (cases "clReconcile cl rel")
    case (Some e1)
    with assms stateUnchanged show ?thesis by (auto simp: applyRelease_def)
  next
    case None
    with assms stateUnchanged show ?thesis
      by (intro registerWatches_failed_watch [where a = "ReconcileCalled rel None"])
         (simp_all add: applyRelease_def)
  qed
next
  case stateError
  with assms show ?thesis by (simp add: applyRelease_def)
qed

lemma installRelease_failed_watch:
  assumes "installRelease e r bi objs chrt = (ret, bi', gvks, tr)"
      and "WatchCalled k (Some err) \<in> set tr"
  shows "ret = Some err \<and> k \<notin> gvks \<and>
         bi' = setCondition (bi\<lparr>Namespace := ''''\<rparr>) TypeInstalled ConditionFalse
                 ReasonCreateDynamicWatchFailed (Error err)"
proof (cases "ActionClientFor e (bi\<lparr>Namespace := ReleaseNamespace r\<rparr>)")
  case (Inl e1)
  with assms show ?thesis by (simp add: installRelease_def)
next
  case (Inr cl)
  obtain rel state ret0 where st:
    "getReleaseState r cl (bi\<lparr>Namespace := ''''\<rparr>) chrt = (rel, state, ret0)"
    by (cases "getReleaseState r cl (bi\<lparr>Namespace := ''''\<rparr>) chrt") auto
  show ?thesis
  proof (cases ret0)
    case None
    with Inr st assms(1) have
      "applyRelease e r (bi\<lparr>Namespace := ''''\<rparr>) cl chrt objs rel state = (ret, bi', gvks, tr)"
      by (simp add: installRelease_def)
    from applyRelease_failed_watch [OF this assms(2)] show ?thesis .
  next
    case (Some e1)
    with Inr st assms show ?thesis by (simp add: installRelease_def)
  qed
qed

lemma reconcileBundleInstance_failed_watch:
  assumes "reconcileBundleInstance e r bi = (ret, bi', gvks, tr)"
      and "WatchCalled k (Some err) \<in> set tr"
  shows "ret = Some err \<and> k \<notin> gvks \<and>
         bi' = setCondition (bi\<lparr>Namespace := ''''\<rparr>) TypeInstalled ConditionFalse
                 ReasonCreateDynamicWatchFailed (Error err)"
proof (cases "getBundle e (Spec_BundleName bi)")
  case (Inl e1)
  with assms show ?thesis by (simp add: reconcileBundleInstance_def)
next
  case (Inr b)
  show ?thesis
  proof (cases "loadBundle e bi")
    case (Inl e1)
    with Inr assms show ?thesis
      by (simp add: reconcileBundleInstance_def Let_def split: if_splits)
  next
    case loaded: (Inr objs)
    show ?thesis
    proof (cases "materialize e \<lparr>Templates = []\<rparr> objs")
      case (Inl e1)
      with Inr loaded assms show ?thesis by (simp add: reconcileBundleInstance_def)
    next
      case chart: (Inr chrt)
      with Inr loaded assms(1) have "installRelease e r bi objs chrt = (ret, bi', gvks, tr)"
        by (simp add: reconcileBundleInstance_def)
      from installRelease_failed_watch [OF this assms(2)] show ?thesis .
    qed
  qed
qed

lemma deferredPatch_events:
  "ev \<in> set (deferredPatch e bi) \<Longrightarrow>
     \<not> applySucceeded ev \<and> \<not> callFailed ev \<and> (\<forall>k res. ev \<noteq> WatchCalled k res)"
  by (cases "statusPatch e (bi\<lparr>ManagedFields := []\<rparr>)") (auto simp: deferredPatch_def)

lemma deferredPatch_once:
  "filter isStatusPatch (deferredPatch e bi) =
     [StatusPatchCalled (bi\<lparr>ManagedFields := []\<rparr>) (statusPatch e (bi\<lparr>ManagedFields := []\<rparr>))]"
  by (cases "statusPatch e (bi\<lparr>ManagedFields := []\<rparr>)") (simp_all add: deferredPatch_def)

subsection \<open>The shape of a pass\<close>

text \<open>
  A pass either ends before the watch loop, with the watched kinds as they were, or it runs
  the watch loop on the loaded objects right after an apply call that succeeded, and its
  outcome is the outcome of the loop.
\<close>

lemma registerWatches_shape:
  "registerWatches e r bi objs [a] = (ret, bi', gvks, tr) \<Longrightarrow>
     \<exists>tr0. watchLoop e bi (dynamicWatchGVKs r) objs = (ret, gvks, tr0) \<and> tr = a # tr0"
  by (cases "watchLoop e bi (dynamicWatchGVKs r) objs")
     (auto simp: registerWatches_def split: option.splits)

lemma applyRelease_shape:
  assumes "applyRelease e r bi cl chrt objs rel state = (ret, bi', gvks, tr)"
  shows "(gvks = dynamicWatchGVKs r \<and> subscriptions tr = [] \<and> ret \<noteq> None) \<or>
         (\<exists>a tr0. applySucceeded a \<and>
            watchLoop e bi (dynamicWatchGVKs r) objs = (ret, gvks, tr0) \<and> tr = a # tr0)"
proof (cases state)
  case stateNeedsInstall
  show ?thesis
  proof (cases "clInstall cl (Name bi) (ReleaseNamespace r) chrt")
    case (Inl e1)
    with assms stateNeedsInstall show ?thesis by (auto simp: applyRelease_def)
  next
    case (Inr rl)
    with assms stateNeedsInstall have
      "registerWatches e r bi objs [InstallCalled (Name bi) (ReleaseNamespace r) chrt None]
         = (ret, bi', gvks, tr)"
      by (simp add: applyRelease_def)
    from registerWatches_shape [OF this] show ?thesis by fastforce
  qed
next
  case stateNeedsUpgrade
  show ?thesis
  proof (cases "clUpgrade cl (Name bi) (ReleaseNamespace r) chrt False")
    case (Inl e1)
    with assms stateNeedsUpgrade show ?thesis by (auto simp: applyRelease_def)
  next
    case (Inr rl)
    with assms stateNeedsUpgrade have
      "registerWatches e r bi objs [UpgradeCalled (Name bi) (ReleaseNamespace r) chrt None]
         = (ret, bi', gvks, tr)"
      by (simp add: applyRelease_def)
    from registerWatches_shape [OF this] show ?thesis by fastforce
  qed
next
  case stateUnchanged
  show ?thesis
  proof (cases "clReconcile cl rel")
    case (Some e1)
    with assms stateUnchanged show ?thesis by (auto simp: applyRelease_def)
  next
    case None
    with assms stateUnchanged have
      "registerWatches e r bi objs [ReconcileCalled rel None] = (ret, bi', gvks, tr)"
      by (simp add: applyRelease_def)
    from registerWatches_shape [OF this] show ?thesis by fastforce
  qed
next
  case stateError
  with assms show ?thesis by (auto simp: applyRelease_def)
qed

lemma installRelease_shape:
  assumes "installRelease e r bi objs chrt = (ret, bi', gvks, tr)"
  shows "(gvks = dynamicWatchGVKs r \<and> subscriptions tr = [] \<and> ret \<noteq> None) \<or>
         (\<exists>a tr0. applySucceeded a \<and>
            watchLoop e (bi\<lparr>Namespace := ''''\<rparr>) (dynamicWatchGVKs r) objs = (ret, gvks, tr0) \<and>
            tr = a # tr0)"
proof (cases "ActionClientFor e (bi\<lparr>Namespace := ReleaseNamespace r\<rparr>)")
  case (Inl e1)
  with assms show ?thesis by (auto simp: installRelease_def)
next
  case (Inr cl)
  obtain rel state ret0 where st:
    "getReleaseState r cl (bi\<lparr>Namespace := ''''\<rparr>) chrt = (rel, state, ret0)"
    by (cases "getReleaseState r cl (bi\<lparr>Namespace := ''''\<rparr>) chrt") auto
  show ?thesis
  proof (cases ret0)
    case None
    with Inr st assms have
      "applyRelease e r (bi\<lparr>Namespace := ''''\<rparr>) cl chrt objs rel state = (ret, bi', gvks, tr)"
      by (simp add: installRelease_def)
    from applyRelease_shape [OF this] show ?thesis .
  next
    case (Some e1)
    with Inr st assms show ?thesis by (auto simp: installRelease_def)
  qed
qed

lemma reconcileBundleInstance_shape:
  assumes "reconcileBundleInstance e r bi = (ret, bi', gvks, tr)"
  shows "(gvks = dynamicWatchGVKs r \<and> subscriptions tr = [] \<and> (ret = None \<longrightarrow> tr = [])) \<or>
         (\<exists>objs a tr0. applySucceeded a \<and> loadBundle e bi = Inr objs \<and>
            watchLoop e (bi\<lparr>Namespace := ''''\<rparr>) (dynamicWatchGVKs r) objs = (ret, gvks, tr0) \<and>
            tr = a # tr0)"
proof (cases "getBundle e (Spec_BundleName bi)")
  case (Inl e1)
  with assms show ?thesis by (auto simp: reconcileBundleInstance_def)
next
  case (Inr b)
  show ?thesis
  proof (cases "loadBundle e bi")
    case (Inl e1)
    with Inr assms show ?thesis
      by (auto simp: reconcileBundleInstance_def Let_def split: if_splits)
  next
    case loaded: (Inr objs)
    show ?thesis
    proof (cases "materialize e \<lparr>Templates = []\<rparr> objs")
      case (Inl e1)
      with Inr loaded assms show ?thesis by (auto simp: reconcileBundleInstance_def)
    next
      case chart: (Inr chrt)
      with Inr loaded assms have "installRelease e r bi objs chrt = (ret, bi', gvks, tr)"
        by (simp add: reconcileBundleInstance_def)
      from installRelease_shape [OF this] loaded show ?thesis by fastforce
    qed
  qed
qed

lemma applySucceeded_subscriptions:
  "applySucceeded a \<Longrightarrow> subscriptions (a # tr) = subscriptions tr"
  by (induction a rule: applySucceeded.induct) simp_all

lemma watchLoop_registry:
  "watchLoop e bi gvks objs = (ret, gvks', tr) \<Longrightarrow>
     gvks' = gvks \<union> set (subscriptions tr) \<and> distinct (subscriptions tr) \<and>
     set (subscriptions tr) \<inter> gvks = {}"
proof (induction objs arbitrary: gvks ret gvks' tr)
  case Nil
  then show ?case by simp
next
  case (Cons obj objs)
  show ?case
  proof (cases "ToUnstructured e obj")
    case (Inl err)
    with Cons.prems show ?thesis by simp
  next
    case (Inr u)
    obtain ret1 gvks1 tr1 where step: "ensureWatch e bi gvks u = (ret1, gvks1, tr1)"
      by (cases "ensureWatch e bi gvks u") auto
    note s = ensureWatch_registry [OF step]
    show ?thesis
    proof (cases ret1)
      case (Some err)
      with Cons.prems Inr step have "tr = tr1" "gvks' = gvks1" by auto
      with s show ?thesis by simp
    next
      case None
      obtain ret2 gvks2 tr2 where rest: "watchLoop e bi gvks1 objs = (ret2, gvks2, tr2)"
        by (cases "watchLoop e bi gvks1 objs") auto
      with Cons.prems Inr step None have eq: "tr = tr1 @ tr2" "gvks' = gvks2" by auto
      from Cons.IH [OF rest] have r:
        "gvks2 = gvks1 \<union> set (subscriptions tr2)" "distinct (subscriptions tr2)"
        "set (subscriptions tr2) \<inter> gvks1 = {}" by auto
      from s r show ?thesis unfolding eq subscriptions_append by auto
    qed
  qed
qed

lemma watchLoop_watched:
  "watchLoop e bi gvks objs = (None, gvks', tr) \<Longrightarrow>
     gvks \<subseteq> gvks' \<and>
     (\<forall>obj \<in> set objs. \<exists>u. ToUnstructured e obj = Inr u \<and> Object_GVK u \<in> gvks')"
proof (induction objs arbitrary: gvks gvks' tr)
  case Nil
  then show ?case by simp
next
  case (Cons obj objs)
  show ?case
  proof (cases "ToUnstructured e obj")
    case (Inl err)
    with Cons.prems show ?thesis by simp
  next
    case (Inr u)
    obtain ret1 gvks1 tr1 where step: "ensureWatch e bi gvks u = (ret1, gvks1, tr1)"
      by (cases "ensureWatch e bi gvks u") auto
    show ?thesis
    proof (cases ret1)
      case (Some err)
      with Cons.prems Inr step show ?thesis by simp
    next
      case None
      obtain ret2 gvks2 tr2 where rest: "watchLoop e bi gvks1 objs = (ret2, gvks2, tr2)"
        by (cases "watchLoop e bi gvks1 objs") auto
      with Cons.prems Inr step None have eq: "ret2 = None" "gvks' = gvks2" by auto
      from step None have g1: "gvks \<subseteq> gvks1" "Object_GVK u \<in> gvks1"
        by (auto simp: ensureWatch_cases split: if_splits option.splits)
      from Cons.IH [OF rest [unfolded eq(1)]] have
        "gvks1 \<subseteq> gvks2"
        "\<forall>obj \<in> set objs. \<exists>u. ToUnstructured e obj = Inr u \<and> Object_GVK u \<in> gvks2"
        by auto
      with g1 Inr eq show ?thesis by auto
    qed
  qed
qed

lemma reconcileBundleInstance_registry:
  assumes "reconcileBundleInstance e r bi = (ret, bi', gvks, tr)"
  shows "gvks = dynamicWatchGVKs r \<union> set (subscriptions tr) \<and> distinct (subscriptions tr) \<and>
         set (subscriptions tr) \<inter> dynamicWatchGVKs r = {}"
  using reconcileBundleInstance_shape [OF assms]
proof (elim disjE exE conjE)
  assume "gvks = dynamicWatchGVKs r" "subscriptions tr = []"
  then show ?thesis by simp
next
  fix objs a tr0
  assume a: "applySucceeded a" "tr = a # tr0"
    and w: "watchLoop e (bi\<lparr>Namespace := ''''\<rparr>) (dynamicWatchGVKs r) objs = (ret, gvks, tr0)"
  from watchLoop_registry [OF w] a show ?thesis
    by (simp add: applySucceeded_subscriptions)
qed

lemma reconcileBundleInstance_watched:
  assumes "reconcileBundleInstance e r bi = (None, bi', gvks, tr)"
      and "\<exists>ev \<in> set tr. applySucceeded ev"
  shows "\<exists>objs. loadBundle e bi = Inr objs \<and>
           (\<forall>obj \<in> set objs. \<exists>u. ToUnstructured e obj = Inr u \<and> Object_GVK u \<in> gvks)"
  using reconcileBundleInstance_shape [OF assms(1)]
proof (elim disjE exE conjE)
  assume "None = None \<longrightarrow> tr = []"
  with assms(2) show ?thesis by simp
next
  fix objs a tr0
  assume l: "loadBundle e bi = Inr objs"
    and w: "watchLoop e (bi\<lparr>Namespace := ''''\<rparr>) (dynamicWatchGVKs r) objs = (None, gvks, tr0)"
  from watchLoop_watched [OF w] l show ?thesis by auto
qed

subsection \<open>The watched kinds over many passes\<close>

lemma deferredPatch_subscriptions: "subscriptions (deferredPatch e bi) = []"
  by (cases "statusPatch e (bi\<lparr>ManagedFields := []\<rparr>)") (simp_all add: deferredPatch_def)

lemma Reconcile_registry:
  assumes "Reconcile e r req = (ret, obi, r', tr)"
  shows "dynamicWatchGVKs r' = dynamicWatchGVKs r \<union> set (subscriptions tr) \<and>
         distinct (subscriptions tr) \<and> set (subscriptions tr) \<inter> dynamicWatchGVKs r = {}"
proof (cases "getBundleInstance e req")
  case (Inl err)
  with assms show ?thesis by (auto simp: Reconcile_def)
next
  case (Inr bi0)
  obtain ret0 bi' gvks0 tr0 where p: "reconcileBundleInstance e r bi0 = (ret0, bi', gvks0, tr0)"
    by (cases "reconcileBundleInstance e r bi0") auto
  with assms Inr reconcileBundleInstance_registry [OF p] show ?thesis
    by (auto simp: Reconcile_def subscriptions_append deferredPatch_subscriptions)
qed

lemma reconcileAll_registry:
  "reconcileAll passes r = (r', tr) \<Longrightarrow>
     dynamicWatchGVKs r' = dynamicWatchGVKs r \<union> set (subscriptions tr) \<and>
     distinct (subscriptions tr) \<and> set (subscriptions tr) \<inter> dynamicWatchGVKs r = {}"
proof (induction passes arbitrary: r r' tr)
  case Nil
  then show ?case by simp
next
  case (Cons pass passes)
  obtain e req where pass: "pass = (e, req)" by (cases pass) auto
  obtain ret obi r1 tr1 where step: "Reconcile e r req = (ret, obi, r1, tr1)"
    by (cases "Reconcile e r req") auto
  obtain r2 tr2 where rest: "reconcileAll passes r1 = (r2, tr2)"
    by (cases "reconcileAll passes r1") auto
  from Cons.prems pass step rest have eq: "r' = r2" "tr = tr1 @ tr2" by auto
  from Reconcile_registry [OF step] have s:
    "dynamicWatchGVKs r1 = dynamicWatchGVKs r \<union> set (subscriptions tr1)"
    "distinct (subscriptions tr1)" "set (subscriptions tr1) \<inter> dynamicWatchGVKs r = {}"
    by auto
  from Cons.IH [OF rest] have t:
    "dynamicWatchGVKs r2 = dynamicWatchGVKs r1 \<union> set (subscriptions tr2)"
    "distinct (subscriptions tr2)" "set (subscriptions tr2) \<inter> dynamicWatchGVKs r1 = {}"
    by auto
  from s t show ?case unfolding eq subscriptions_append by auto
qed

lemma Reconcile_failed_watch:
  assumes "Reconcile e r req = (ret, obi, r', tr)"
      and "WatchCalled k (Some err) \<in> set tr"
  shows "ret = Some err \<and> k \<notin> dynamicWatchGVKs r' \<and>
         (\<exists>bi'. obi = Some bi' \<and>
            FindStatusCondition (Status_Conditions bi') TypeInstalled =
              Some \<lparr>Type = TypeInstalled, Status = ConditionFalse,
                    Reason = ReasonCreateDynamicWatchFailed, Message = Error err\<rparr>)"
proof (cases "getBundleInstance e req")
  case (Inl err0)
  with assms show ?thesis by (auto simp: Reconcile_def)
next
  case (Inr bi0)
  obtain ret0 bi' gvks0 tr0 where p: "reconcileBundleInstance e r bi0 = (ret0, bi', gvks0, tr0)"
    by (cases "reconcileBundleInstance e r bi0") auto
  with assms(1) Inr have eq: "ret = ret0" "obi = Some bi'" "r' = r\<lparr>dynamicWatchGVKs := gvks0\<rparr>"
    "tr = tr0 @ deferredPatch e bi'"
    by (auto simp: Reconcile_def)
  from assms(2) eq(4) deferredPatch_events [of "WatchCalled k (Some err)" e bi']
  have "WatchCalled k (Some err) \<in> set tr0" by auto
  from reconcileBundleInstance_failed_watch [OF p this] eq show ?thesis
    by (simp add: find_setCondition_same)
qed

subsection \<open>Effects need an unpacked Bundle\<close>

lemma reconcileBundleInstance_effects_loaded:
  assumes "reconcileBundleInstance e r bi = (ret, bi', gvks, tr)" and "tr \<noteq> []"
  shows "\<exists>objs. loadBundle e bi = Inr objs"
proof (cases "getBundle e (Spec_BundleName bi)")
  case (Inl e1)
  with assms show ?thesis by (simp add: reconcileBundleInstance_def)
next
  case (Inr b)
  show ?thesis
  proof (cases "loadBundle e bi")
    case (Inl e1)
    with Inr assms show ?thesis
      by (simp add: reconcileBundleInstance_def Let_def split: if_splits)
  next
    case loaded: (Inr objs)
    then show ?thesis by simp
  qed
qed

lemma loadBundle_unpacked:
  "loadBundle e bi = Inr objs \<Longrightarrow>
     \<exists>b. loadGetBundle e (Spec_BundleName bi) = Inr b \<and> Phase b = PhaseUnpacked"
  by (cases "loadGetBundle e (Spec_BundleName bi)")
     (auto simp: loadBundle_def split: if_splits sum.splits)

subsection \<open>Running a pass on the example cluster\<close>

lemma replicate_numeral:
  "replicate (numeral k) x = x # replicate (pred_numeral k) x"
  by (simp add: numeral_eq_Suc)

lemmas scenario_defs =
  cluster_def helm_def inst_a_def pkg_a_def cm_a_def cm_b_def configMap_def reconciler_def
  release_a_def PhaseUnpacked_def PhasePending_def PhaseUnpacking_def
  StatusDeployed_def StatusFailed_def StatusSuperseded_def

lemmas reconcile_defs =
  Reconcile_def reconcileBundleInstance_def loadBundle_def installRelease_def
  getReleaseState_def applyRelease_def registerWatches_def ensureWatch_def deferredPatch_def
  setCondition_def IgnoreNotFound_def templateName_def hexDigit_def replicate_numeral Let_def

section \<open>The claims\<close>

subsection \<open>C1: the release state table\<close>

text \<open>
  Claim C1. \<^verbatim>\<open>getReleaseState\<close> follows the spec's state table. A lookup that fails with
  release-not-found gives needs-install with no error. Any other lookup error gives state
  error with that error. With a release found, an error of the dry-run upgrade gives state
  error with that error; a dry-run manifest that differs from the current manifest gives
  needs-upgrade whatever the status; equal manifests give needs-upgrade when the current
  status is failed or superseded, and unchanged otherwise.
\<close>

theorem getReleaseState_table:
  "(clGet cl (Name obj) = Inl err \<and> IsReleaseNotFound err \<longrightarrow>
      getReleaseState r cl obj chrt = (None, stateNeedsInstall, None)) \<and>
   (clGet cl (Name obj) = Inl err \<and> \<not> IsReleaseNotFound err \<longrightarrow>
      getReleaseState r cl obj chrt = (None, stateError, Some err)) \<and>
   (clGet cl (Name obj) = Inr cur \<and>
    clUpgrade cl (Name obj) (ReleaseNamespace r) chrt True = Inl err \<longrightarrow>
      getReleaseState r cl obj chrt = (Some cur, stateError, Some err)) \<and>
   (clGet cl (Name obj) = Inr cur \<and>
    clUpgrade cl (Name obj) (ReleaseNamespace r) chrt True = Inr des \<and>
    Manifest des \<noteq> Manifest cur \<longrightarrow>
      getReleaseState r cl obj chrt = (Some cur, stateNeedsUpgrade, None)) \<and>
   (clGet cl (Name obj) = Inr cur \<and>
    clUpgrade cl (Name obj) (ReleaseNamespace r) chrt True = Inr des \<and>
    Manifest des = Manifest cur \<and>
    (Info_Status cur = StatusFailed \<or> Info_Status cur = StatusSuperseded) \<longrightarrow>
      getReleaseState r cl obj chrt = (Some cur, stateNeedsUpgrade, None)) \<and>
   (clGet cl (Name obj) = Inr cur \<and>
    clUpgrade cl (Name obj) (ReleaseNamespace r) chrt True = Inr des \<and>
    Manifest des = Manifest cur \<and>
    Info_Status cur \<noteq> StatusFailed \<and> Info_Status cur \<noteq> StatusSuperseded \<longrightarrow>
      getReleaseState r cl obj chrt = (Some cur, stateUnchanged, None))"
  by (simp add: getReleaseState_def)

theorem getReleaseState_table_witness:
  "getReleaseState reconciler (helm (Inl ErrReleaseNotFound) (Inl (ErrorString ''unused'')) None)
     inst_a \<lparr>Templates = []\<rparr> = (None, stateNeedsInstall, None) \<and>
   getReleaseState reconciler (helm (Inl (ErrorString ''timeout'')) (Inl (ErrorString ''unused'')) None)
     inst_a \<lparr>Templates = []\<rparr> = (None, stateError, Some (ErrorString ''timeout'')) \<and>
   getReleaseState reconciler
     (helm (Inr (release_a ''m1'' StatusDeployed)) (Inl (ErrorString ''render'')) None)
     inst_a \<lparr>Templates = []\<rparr>
     = (Some (release_a ''m1'' StatusDeployed), stateError, Some (ErrorString ''render'')) \<and>
   getReleaseState reconciler
     (helm (Inr (release_a ''m1'' StatusDeployed)) (Inr (release_a ''m2'' StatusDeployed)) None)
     inst_a \<lparr>Templates = []\<rparr>
     = (Some (release_a ''m1'' StatusDeployed), stateNeedsUpgrade, None) \<and>
   getReleaseState reconciler
     (helm (Inr (release_a ''m1'' StatusFailed)) (Inr (release_a ''m1'' StatusDeployed)) None)
     inst_a \<lparr>Templates = []\<rparr>
     = (Some (release_a ''m1'' StatusFailed), stateNeedsUpgrade, None) \<and>
   getReleaseState reconciler
     (helm (Inr (release_a ''m1'' StatusDeployed)) (Inr (release_a ''m1'' StatusDeployed)) None)
     inst_a \<lparr>Templates = []\<rparr>
     = (Some (release_a ''m1'' StatusDeployed), stateUnchanged, None)"
  using
    getReleaseState_table [where r = reconciler and obj = inst_a and chrt = "\<lparr>Templates = []\<rparr>"
      and cl = "helm (Inl ErrReleaseNotFound) (Inl (ErrorString ''unused'')) None"
      and err = ErrReleaseNotFound]
    getReleaseState_table [where r = reconciler and obj = inst_a and chrt = "\<lparr>Templates = []\<rparr>"
      and cl = "helm (Inl (ErrorString ''timeout'')) (Inl (ErrorString ''unused'')) None"
      and err = "ErrorString ''timeout''"]
    getReleaseState_table [where r = reconciler and obj = inst_a and chrt = "\<lparr>Templates = []\<rparr>"
      and cl = "helm (Inr (release_a ''m1'' StatusDeployed)) (Inl (ErrorString ''render'')) None"
      and err = "ErrorString ''render''" and cur = "release_a ''m1'' StatusDeployed"]
    getReleaseState_table [where r = reconciler and obj = inst_a and chrt = "\<lparr>Templates = []\<rparr>"
      and cl = "helm (Inr (release_a ''m1'' StatusDeployed)) (Inr (release_a ''m2'' StatusDeployed)) None"
      and cur = "release_a ''m1'' StatusDeployed" and des = "release_a ''m2'' StatusDeployed"]
    getReleaseState_table [where r = reconciler and obj = inst_a and chrt = "\<lparr>Templates = []\<rparr>"
      and cl = "helm (Inr (release_a ''m1'' StatusFailed)) (Inr (release_a ''m1'' StatusDeployed)) None"
      and cur = "release_a ''m1'' StatusFailed" and des = "release_a ''m1'' StatusDeployed"]
    getReleaseState_table [where r = reconciler and obj = inst_a and chrt = "\<lparr>Templates = []\<rparr>"
      and cl = "helm (Inr (release_a ''m1'' StatusDeployed)) (Inr (release_a ''m1'' StatusDeployed)) None"
      and cur = "release_a ''m1'' StatusDeployed" and des = "release_a ''m1'' StatusDeployed"]
  by (simp add: helm_def release_a_def StatusDeployed_def StatusFailed_def StatusSuperseded_def)

subsection \<open>C2: a Bundle that is not unpacked yet\<close>

text \<open>
  Claim C2. When the BundleInstance is fetched and both fetches of its Bundle return a Bundle
  whose phase is not Unpacked, \<^verbatim>\<open>Reconcile\<close> returns a nil error, leaves the watched kinds
  alone, and upserts exactly one condition: Installed, with status False and reason
  \<^verbatim>\<open>BundleUnpackRunning\<close> when the phase is Unpacking and \<^verbatim>\<open>BundleUnpack\<close> followed by the
  phase otherwise. The HasValidBundle condition is what it was before the pass.
\<close>

theorem Reconcile_bundle_not_unpacked:
  assumes "getBundleInstance e req = Inr bi"
      and "getBundle e (Spec_BundleName bi) = Inr b"
      and "loadGetBundle e (Spec_BundleName bi) = Inr b"
      and "Phase b \<noteq> PhaseUnpacked"
  shows "\<exists>bi' tr.
           Reconcile e r req = (None, Some bi', r, tr) \<and>
           Status_Conditions bi' =
             SetStatusCondition (Status_Conditions bi)
               \<lparr>Type = TypeInstalled, Status = ConditionFalse,
                Reason = (if Phase b = PhaseUnpacking then ''BundleUnpackRunning''
                          else ''BundleUnpack'' @ Phase b),
                Message = ''''\<rparr> \<and>
           FindStatusCondition (Status_Conditions bi') TypeInstalled =
             Some \<lparr>Type = TypeInstalled, Status = ConditionFalse,
                   Reason = (if Phase b = PhaseUnpacking then ''BundleUnpackRunning''
                             else ''BundleUnpack'' @ Phase b),
                   Message = ''''\<rparr> \<and>
           FindStatusCondition (Status_Conditions bi') TypeHasValidBundle =
             FindStatusCondition (Status_Conditions bi) TypeHasValidBundle"
proof -
  let ?reason = "if Phase b = PhaseUnpacking then ''BundleUnpackRunning''
                 else ''BundleUnpack'' @ Phase b"
  let ?bi = "setCondition bi TypeInstalled ConditionFalse ?reason ''''"
  from assms(3,4) have "loadBundle e bi = Inl (errBundleNotUnpacked (Phase b))"
    by (simp add: loadBundle_def)
  with assms(2) have "reconcileBundleInstance e r bi = (None, ?bi, dynamicWatchGVKs r, [])"
    by (simp add: reconcileBundleInstance_def Let_def)
  with assms(1) have "Reconcile e r req = (None, Some ?bi, r, deferredPatch e ?bi)"
    by (simp add: Reconcile_def)
  moreover have "Status_Conditions ?bi =
      SetStatusCondition (Status_Conditions bi)
        \<lparr>Type = TypeInstalled, Status = ConditionFalse, Reason = ?reason, Message = ''''\<rparr>"
    by (simp add: setCondition_def)
  moreover have "FindStatusCondition (Status_Conditions ?bi) TypeInstalled =
      Some \<lparr>Type = TypeInstalled, Status = ConditionFalse, Reason = ?reason, Message = ''''\<rparr>"
    by (rule find_setCondition_same)
  moreover have "FindStatusCondition (Status_Conditions ?bi) TypeHasValidBundle =
      FindStatusCondition (Status_Conditions bi) TypeHasValidBundle"
    by (rule find_setCondition_other) (rule condition_types_distinct)
  ultimately show ?thesis by blast
qed

theorem Reconcile_bundle_not_unpacked_witness:
  "(\<exists>bi' tr.
      Reconcile
        (cluster (Inr inst_a) (Inr (pkg_a PhaseUnpacking)) (helm (Inl ErrReleaseNotFound) (Inl ErrReleaseNotFound) None) None None)
        reconciler ''inst-a'' = (None, Some bi', reconciler, tr) \<and>
      Status_Conditions bi' =
        [\<lparr>Type = ''Installed'', Status = ConditionFalse, Reason = ''BundleUnpackRunning'',
          Message = ''''\<rparr>] \<and>
      FindStatusCondition (Status_Conditions bi') TypeHasValidBundle = None) \<and>
   (\<exists>bi' tr.
      Reconcile
        (cluster (Inr inst_a) (Inr (pkg_a PhasePending)) (helm (Inl ErrReleaseNotFound) (Inl ErrReleaseNotFound) None) None None)
        reconciler ''inst-a'' = (None, Some bi', reconciler, tr) \<and>
      Status_Conditions bi' =
        [\<lparr>Type = ''Installed'', Status = ConditionFalse, Reason = ''BundleUnpackPending'',
          Message = ''''\<rparr>] \<and>
      FindStatusCondition (Status_Conditions bi') TypeHasValidBundle = None)"
  using
    Reconcile_bundle_not_unpacked [where r = reconciler and req = "''inst-a''" and bi = inst_a
      and b = "pkg_a PhaseUnpacking"
      and e = "cluster (Inr inst_a) (Inr (pkg_a PhaseUnpacking)) (helm (Inl ErrReleaseNotFound) (Inl ErrReleaseNotFound) None) None None"]
    Reconcile_bundle_not_unpacked [where r = reconciler and req = "''inst-a''" and bi = inst_a
      and b = "pkg_a PhasePending"
      and e = "cluster (Inr inst_a) (Inr (pkg_a PhasePending)) (helm (Inl ErrReleaseNotFound) (Inl ErrReleaseNotFound) None) None None"]
  by (fastforce simp: cluster_def pkg_a_def inst_a_def PhasePending_def PhaseUnpacking_def
        PhaseUnpacked_def TypeInstalled_def)

subsection \<open>C3: the installed bundle name\<close>

text \<open>
  Claim C3. In a pass on a fetched BundleInstance, \<^verbatim>\<open>Status.InstalledBundleName\<close> at the end
  is the spec's bundle name when the pass returned no error after an install, upgrade or
  reconcile call that succeeded, and is the value from before the pass on every other path;
  so it is the old value whenever the pass returns an error. On the path that updates it, no
  install, upgrade, reconcile or watch call of the pass failed, the bundle's objects were
  loaded, and the kind of every one of them is among the watched kinds.
\<close>

theorem Reconcile_InstalledBundleName:
  assumes "getBundleInstance e req = Inr bi"
  shows "\<exists>ret bi' r' tr.
           Reconcile e r req = (ret, Some bi', r', tr) \<and>
           Status_InstalledBundleName bi' =
             (if ret = None \<and> (\<exists>ev \<in> set tr. applySucceeded ev)
              then Spec_BundleName bi else Status_InstalledBundleName bi) \<and>
           (ret \<noteq> None \<longrightarrow> Status_InstalledBundleName bi' = Status_InstalledBundleName bi) \<and>
           (ret = None \<and> (\<exists>ev \<in> set tr. applySucceeded ev) \<longrightarrow>
              (\<forall>ev \<in> set tr. \<not> callFailed ev) \<and>
              (\<exists>objs. loadBundle e bi = Inr objs \<and>
                 (\<forall>obj \<in> set objs. \<exists>u. ToUnstructured e obj = Inr u \<and>
                    Object_GVK u \<in> dynamicWatchGVKs r')))"
proof -
  obtain ret bi' gvks tr0 where p: "reconcileBundleInstance e r bi = (ret, bi', gvks, tr0)"
    by (cases "reconcileBundleInstance e r bi") auto
  let ?tr = "tr0 @ deferredPatch e bi'"
  from assms p have R: "Reconcile e r req = (ret, Some bi', r\<lparr>dynamicWatchGVKs := gvks\<rparr>, ?tr)"
    by (simp add: Reconcile_def)
  have ap: "(\<exists>ev \<in> set ?tr. applySucceeded ev) = (\<exists>ev \<in> set tr0. applySucceeded ev)"
    using deferredPatch_events [of _ e bi'] by auto
  have fl: "(\<forall>ev \<in> set ?tr. \<not> callFailed ev) = (\<forall>ev \<in> set tr0. \<not> callFailed ev)"
    using deferredPatch_events [of _ e bi'] by auto
  from reconcileBundleInstance_inv [of bi e r] p have inv:
    "Status_InstalledBundleName bi' =
       (if ret = None \<and> (\<exists>ev \<in> set tr0. applySucceeded ev)
        then Spec_BundleName bi else Status_InstalledBundleName bi)"
    "ret = None \<and> (\<exists>ev \<in> set tr0. applySucceeded ev) \<longrightarrow> (\<forall>ev \<in> set tr0. \<not> callFailed ev)"
    by (simp_all add: passInv_def)
  have name: "Status_InstalledBundleName bi' =
       (if ret = None \<and> (\<exists>ev \<in> set ?tr. applySucceeded ev)
        then Spec_BundleName bi else Status_InstalledBundleName bi)"
    unfolding ap by (rule inv(1))
  have err: "ret \<noteq> None \<longrightarrow> Status_InstalledBundleName bi' = Status_InstalledBundleName bi"
    using inv(1) by simp
  have ok: "ret = None \<and> (\<exists>ev \<in> set ?tr. applySucceeded ev) \<longrightarrow>
      (\<forall>ev \<in> set ?tr. \<not> callFailed ev) \<and>
      (\<exists>objs. loadBundle e bi = Inr objs \<and>
         (\<forall>obj \<in> set objs. \<exists>u. ToUnstructured e obj = Inr u \<and>
            Object_GVK u \<in> dynamicWatchGVKs (r\<lparr>dynamicWatchGVKs := gvks\<rparr>)))"
  proof (intro impI, elim conjE)
    assume n: "ret = None" and a: "\<exists>ev \<in> set ?tr. applySucceeded ev"
    from a have a0: "\<exists>ev \<in> set tr0. applySucceeded ev" unfolding ap .
    from inv(2) n a0 have "\<forall>ev \<in> set ?tr. \<not> callFailed ev" unfolding fl by simp
    moreover from reconcileBundleInstance_watched [OF p [unfolded n] a0]
    have "\<exists>objs. loadBundle e bi = Inr objs \<and>
         (\<forall>obj \<in> set objs. \<exists>u. ToUnstructured e obj = Inr u \<and>
            Object_GVK u \<in> dynamicWatchGVKs (r\<lparr>dynamicWatchGVKs := gvks\<rparr>))"
      by simp
    ultimately show "(\<forall>ev \<in> set ?tr. \<not> callFailed ev) \<and>
      (\<exists>objs. loadBundle e bi = Inr objs \<and>
         (\<forall>obj \<in> set objs. \<exists>u. ToUnstructured e obj = Inr u \<and>
            Object_GVK u \<in> dynamicWatchGVKs (r\<lparr>dynamicWatchGVKs := gvks\<rparr>)))"
      by simp
  qed
  from R name err ok show ?thesis by blast
qed

theorem Reconcile_InstalledBundleName_witness:
  "(\<exists>ret bi' r' tr.
      Reconcile
        (cluster (Inr inst_a) (Inr (pkg_a PhaseUnpacked))
           (helm (Inl ErrReleaseNotFound) (Inl ErrReleaseNotFound) None) None None)
        reconciler ''inst-a'' = (ret, Some bi', r', tr) \<and>
      ret = None \<and> Status_InstalledBundleName bi' = ''pkg-a'' \<and>
      (\<forall>ev \<in> set tr. \<not> callFailed ev) \<and> configMap \<in> dynamicWatchGVKs r') \<and>
   (\<exists>ret bi' r' tr.
      Reconcile
        (cluster (Inr (inst_a\<lparr>Status_InstalledBundleName := ''pkg-0''\<rparr>)) (Inr (pkg_a PhaseUnpacked))
           (helm (Inr (release_a ''m0'' StatusDeployed)) (Inr (release_a ''m1'' StatusDeployed))
              (Some (ErrorString ''upgrade timed out''))) None None)
        reconciler ''inst-a'' = (ret, Some bi', r', tr) \<and>
      ret = Some (ErrorString ''upgrade timed out'') \<and>
      Status_InstalledBundleName bi' = ''pkg-0'')"
  using
    Reconcile_InstalledBundleName [where r = reconciler and req = "''inst-a''" and bi = inst_a
      and e = "cluster (Inr inst_a) (Inr (pkg_a PhaseUnpacked))
           (helm (Inl ErrReleaseNotFound) (Inl ErrReleaseNotFound) None) None None"]
    Reconcile_InstalledBundleName [where r = reconciler and req = "''inst-a''"
      and bi = "inst_a\<lparr>Status_InstalledBundleName := ''pkg-0''\<rparr>"
      and e = "cluster (Inr (inst_a\<lparr>Status_InstalledBundleName := ''pkg-0''\<rparr>)) (Inr (pkg_a PhaseUnpacked))
           (helm (Inr (release_a ''m0'' StatusDeployed)) (Inr (release_a ''m1'' StatusDeployed))
              (Some (ErrorString ''upgrade timed out''))) None None"]
  by (simp add: scenario_defs reconcile_defs)

subsection \<open>C4: the watched kinds\<close>

text \<open>
  Claim C4. The step that registers a watch (lines 241-256) is a no-op on a kind that is
  already in the map: no call to \<^verbatim>\<open>Watch\<close>, the map unchanged, no error. On a kind that is
  not in the map it calls \<^verbatim>\<open>Watch\<close> once; when that fails the kind is not inserted and the
  error is returned, when it succeeds the kind is inserted. Over any sequence of runs of the
  step, and over any sequence of passes of \<^verbatim>\<open>Reconcile\<close>, from the empty map of
  \<^verbatim>\<open>SetupWithManager\<close>, no kind gets a second subscription, and the map holds exactly the
  kinds subscribed to. In one pass the subscriptions are new kinds, each once, and the map
  grows by exactly them; a failed \<^verbatim>\<open>Watch\<close> call makes the pass return that error with the
  kind left out of the map and the Installed condition False with reason
  \<^verbatim>\<open>CreateDynamicWatchFailed\<close>.
\<close>

theorem dynamic_watch_registry:
  "(Object_GVK u \<in> gvks \<longrightarrow> ensureWatch e bi gvks u = (None, gvks, [])) \<and>
   (Object_GVK u \<notin> gvks \<longrightarrow>
      (\<forall>err. controllerWatch e u bi = Some err \<longrightarrow>
         ensureWatch e bi gvks u = (Some err, gvks, [WatchCalled (Object_GVK u) (Some err)])) \<and>
      (controllerWatch e u bi = None \<longrightarrow>
         ensureWatch e bi gvks u =
           (None, insert (Object_GVK u) gvks, [WatchCalled (Object_GVK u) None]))) \<and>
   (\<forall>runs gvks' tr. ensureWatchAll runs {} = (gvks', tr) \<longrightarrow>
      distinct (subscriptions tr) \<and> gvks' = set (subscriptions tr)) \<and>
   (\<forall>passes r' tr. reconcileAll passes (r\<lparr>dynamicWatchGVKs := {}\<rparr>) = (r', tr) \<longrightarrow>
      distinct (subscriptions tr) \<and> dynamicWatchGVKs r' = set (subscriptions tr)) \<and>
   (\<forall>ret obi r' tr. Reconcile e r req = (ret, obi, r', tr) \<longrightarrow>
      dynamicWatchGVKs r' = dynamicWatchGVKs r \<union> set (subscriptions tr) \<and>
      distinct (subscriptions tr) \<and>
      set (subscriptions tr) \<inter> dynamicWatchGVKs r = {} \<and>
      (\<forall>k err. WatchCalled k (Some err) \<in> set tr \<longrightarrow>
         ret = Some err \<and> k \<notin> dynamicWatchGVKs r' \<and>
         (\<exists>bi'. obi = Some bi' \<and>
            FindStatusCondition (Status_Conditions bi') TypeInstalled =
              Some \<lparr>Type = TypeInstalled, Status = ConditionFalse,
                    Reason = ReasonCreateDynamicWatchFailed, Message = Error err\<rparr>)))"
proof -
  have present: "Object_GVK u \<in> gvks \<longrightarrow> ensureWatch e bi gvks u = (None, gvks, [])"
    by (simp add: ensureWatch_cases)
  have absent: "Object_GVK u \<notin> gvks \<longrightarrow>
      (\<forall>err. controllerWatch e u bi = Some err \<longrightarrow>
         ensureWatch e bi gvks u = (Some err, gvks, [WatchCalled (Object_GVK u) (Some err)])) \<and>
      (controllerWatch e u bi = None \<longrightarrow>
         ensureWatch e bi gvks u =
           (None, insert (Object_GVK u) gvks, [WatchCalled (Object_GVK u) None]))"
    by (simp add: ensureWatch_cases)
  have runs: "\<forall>runs gvks' tr. ensureWatchAll runs {} = (gvks', tr) \<longrightarrow>
      distinct (subscriptions tr) \<and> gvks' = set (subscriptions tr)"
    using ensureWatchAll_registry by fastforce
  have passes: "\<forall>passes r' tr. reconcileAll passes (r\<lparr>dynamicWatchGVKs := {}\<rparr>) = (r', tr) \<longrightarrow>
      distinct (subscriptions tr) \<and> dynamicWatchGVKs r' = set (subscriptions tr)"
    using reconcileAll_registry [where r = "r\<lparr>dynamicWatchGVKs := {}\<rparr>"] by fastforce
  have pass: "\<forall>ret obi r' tr. Reconcile e r req = (ret, obi, r', tr) \<longrightarrow>
      dynamicWatchGVKs r' = dynamicWatchGVKs r \<union> set (subscriptions tr) \<and>
      distinct (subscriptions tr) \<and>
      set (subscriptions tr) \<inter> dynamicWatchGVKs r = {} \<and>
      (\<forall>k err. WatchCalled k (Some err) \<in> set tr \<longrightarrow>
         ret = Some err \<and> k \<notin> dynamicWatchGVKs r' \<and>
         (\<exists>bi'. obi = Some bi' \<and>
            FindStatusCondition (Status_Conditions bi') TypeInstalled =
              Some \<lparr>Type = TypeInstalled, Status = ConditionFalse,
                    Reason = ReasonCreateDynamicWatchFailed, Message = Error err\<rparr>))"
  proof (intro allI impI)
    fix ret obi r' tr
    assume R: "Reconcile e r req = (ret, obi, r', tr)"
    from Reconcile_registry [OF R] Reconcile_failed_watch [OF R]
    show "dynamicWatchGVKs r' = dynamicWatchGVKs r \<union> set (subscriptions tr) \<and>
      distinct (subscriptions tr) \<and>
      set (subscriptions tr) \<inter> dynamicWatchGVKs r = {} \<and>
      (\<forall>k err. WatchCalled k (Some err) \<in> set tr \<longrightarrow>
         ret = Some err \<and> k \<notin> dynamicWatchGVKs r' \<and>
         (\<exists>bi'. obi = Some bi' \<and>
            FindStatusCondition (Status_Conditions bi') TypeInstalled =
              Some \<lparr>Type = TypeInstalled, Status = ConditionFalse,
                    Reason = ReasonCreateDynamicWatchFailed, Message = Error err\<rparr>))"
      by blast
  qed
  from present absent runs passes pass show ?thesis by (intro conjI)
qed

theorem dynamic_watch_registry_witness:
  "ensureWatch
     (cluster (Inr inst_a) (Inr (pkg_a PhaseUnpacked))
        (helm (Inl ErrReleaseNotFound) (Inl ErrReleaseNotFound) None)
        (Some (ErrorString ''no matches for kind'')) None)
     inst_a {configMap} cm_b = (None, {configMap}, []) \<and>
   ensureWatch
     (cluster (Inr inst_a) (Inr (pkg_a PhaseUnpacked))
        (helm (Inl ErrReleaseNotFound) (Inl ErrReleaseNotFound) None)
        (Some (ErrorString ''no matches for kind'')) None)
     inst_a {} cm_a
     = (Some (ErrorString ''no matches for kind''), {},
        [WatchCalled configMap (Some (ErrorString ''no matches for kind''))]) \<and>
   (\<exists>bi' tr.
      Reconcile
        (cluster (Inr inst_a) (Inr (pkg_a PhaseUnpacked))
           (helm (Inl ErrReleaseNotFound) (Inl ErrReleaseNotFound) None)
           (Some (ErrorString ''no matches for kind'')) None)
        reconciler ''inst-a''
      = (Some (ErrorString ''no matches for kind''), Some bi', reconciler, tr) \<and>
      WatchCalled configMap (Some (ErrorString ''no matches for kind'')) \<in> set tr \<and>
      configMap \<notin> dynamicWatchGVKs reconciler \<and>
      FindStatusCondition (Status_Conditions bi') TypeInstalled =
        Some \<lparr>Type = TypeInstalled, Status = ConditionFalse,
              Reason = ReasonCreateDynamicWatchFailed, Message = ''no matches for kind''\<rparr> \<and>
      Status_InstalledBundleName bi' = '''') \<and>
   (\<exists>r' tr.
      reconcileAll
        [(cluster (Inr inst_a) (Inr (pkg_a PhaseUnpacked))
            (helm (Inl ErrReleaseNotFound) (Inl ErrReleaseNotFound) None) None None, ''inst-a''),
         (cluster (Inr inst_a) (Inr (pkg_a PhaseUnpacked))
            (helm (Inr (release_a ''m1'' StatusDeployed)) (Inr (release_a ''m1'' StatusDeployed)) None)
            None None, ''inst-a'')]
        reconciler = (r', tr) \<and>
      subscriptions tr = [configMap] \<and> dynamicWatchGVKs r' = {configMap})"
proof -
  let ?err = "ErrorString ''no matches for kind''"
  let ?e = "cluster (Inr inst_a) (Inr (pkg_a PhaseUnpacked))
              (helm (Inl ErrReleaseNotFound) (Inl ErrReleaseNotFound) None) (Some ?err) None"
  let ?bi = "inst_a\<lparr>Status_Conditions :=
         [\<lparr>Type = TypeInstalled, Status = ConditionFalse,
           Reason = ReasonCreateDynamicWatchFailed, Message = ''no matches for kind''\<rparr>]\<rparr>"
  let ?tr = "[InstallCalled ''inst-a'' ''rukpak-system''
         \<lparr>Templates =
            [\<lparr>File_Name = ''object-5e00000000000000.yaml'', File_Data = map of_char ''cm-a''\<rparr>,
             \<lparr>File_Name = ''object-5f00000000000000.yaml'', File_Data = map of_char ''cm-b''\<rparr>]\<rparr>
         None,
       WatchCalled configMap (Some ?err),
       StatusPatchCalled (?bi\<lparr>ManagedFields := []\<rparr>) None]"
  let ?passes = "[(cluster (Inr inst_a) (Inr (pkg_a PhaseUnpacked))
            (helm (Inl ErrReleaseNotFound) (Inl ErrReleaseNotFound) None) None None, ''inst-a''),
         (cluster (Inr inst_a) (Inr (pkg_a PhaseUnpacked))
            (helm (Inr (release_a ''m1'' StatusDeployed)) (Inr (release_a ''m1'' StatusDeployed)) None)
            None None, ''inst-a'')]"
  note reg = dynamic_watch_registry [where e = ?e and bi = inst_a and r = reconciler
      and req = "''inst-a''"]
  have present: "ensureWatch ?e inst_a {configMap} cm_b = (None, {configMap}, [])"
    using reg [where u = cm_b and gvks = "{configMap}", THEN conjunct1]
    by (simp add: cm_b_def)
  have absent: "ensureWatch ?e inst_a {} cm_a = (Some ?err, {}, [WatchCalled configMap (Some ?err)])"
    using reg [where u = cm_a and gvks = "{}", THEN conjunct2, THEN conjunct1]
    by (simp add: cm_a_def cluster_def)
  have R: "Reconcile ?e reconciler ''inst-a'' = (Some ?err, Some ?bi, reconciler, ?tr)"
    by (simp add: scenario_defs reconcile_defs)
  have w: "WatchCalled configMap (Some ?err) \<in> set ?tr" by simp
  note pass = reg [where u = cm_a and gvks = "{}", THEN conjunct2, THEN conjunct2,
      THEN conjunct2, THEN conjunct2, rule_format, OF R]
  note failed = pass [THEN conjunct2, THEN conjunct2, THEN conjunct2, rule_format, OF w]
  from failed have out: "configMap \<notin> dynamicWatchGVKs reconciler"
    and cond: "FindStatusCondition (Status_Conditions ?bi) TypeInstalled =
        Some \<lparr>Type = TypeInstalled, Status = ConditionFalse,
              Reason = ReasonCreateDynamicWatchFailed, Message = ''no matches for kind''\<rparr>"
    by simp_all
  have nm: "Status_InstalledBundleName ?bi = ''''" by (simp add: inst_a_def)
  from R w out cond nm have one: "\<exists>bi' tr.
      Reconcile ?e reconciler ''inst-a'' = (Some ?err, Some bi', reconciler, tr) \<and>
      WatchCalled configMap (Some ?err) \<in> set tr \<and>
      configMap \<notin> dynamicWatchGVKs reconciler \<and>
      FindStatusCondition (Status_Conditions bi') TypeInstalled =
        Some \<lparr>Type = TypeInstalled, Status = ConditionFalse,
              Reason = ReasonCreateDynamicWatchFailed, Message = ''no matches for kind''\<rparr> \<and>
      Status_InstalledBundleName bi' = ''''"
    by (intro exI [of _ ?bi] exI [of _ ?tr] conjI)
  obtain r' tr where all: "reconcileAll ?passes reconciler = (r', tr)"
    by (cases "reconcileAll ?passes reconciler") auto
  then have subs: "subscriptions tr = [configMap]"
    by (auto simp: scenario_defs reconcile_defs)
  have "reconciler\<lparr>dynamicWatchGVKs := {}\<rparr> = reconciler" by (simp add: reconciler_def)
  with all have "reconcileAll ?passes (reconciler\<lparr>dynamicWatchGVKs := {}\<rparr>) = (r', tr)" by simp
  from reg [where u = cm_a and gvks = "{}", THEN conjunct2, THEN conjunct2, THEN conjunct2,
      THEN conjunct1, rule_format, OF this] subs
  have "dynamicWatchGVKs r' = {configMap}" by simp
  with all subs have many: "\<exists>r' tr. reconcileAll ?passes reconciler = (r', tr) \<and>
      subscriptions tr = [configMap] \<and> dynamicWatchGVKs r' = {configMap}"
    by (intro exI [of _ r'] exI [of _ tr] conjI)
  from present absent one many show ?thesis by (intro conjI)
qed

subsection \<open>C6: owner labels\<close>

text \<open>
  Claim C6. When the Bundle is unpacked and its objects load, \<^verbatim>\<open>loadBundle\<close> returns the
  loaded objects in order, each changed in its labels only: the label
  \<^verbatim>\<open>core.rukpak.io/owner-kind\<close> is \<^verbatim>\<open>BundleInstance\<close>, the label
  \<^verbatim>\<open>core.rukpak.io/owner-name\<close> is the BundleInstance's name, every other label is as it was
  loaded, and no other label is added.
\<close>

theorem loadBundle_owner_labels:
  assumes "loadGetBundle e (Spec_BundleName bi) = Inr b"
      and "Phase b = PhaseUnpacked"
      and "storageLoad e b = Inr objects"
  shows "\<exists>objs.
           loadBundle e bi = Inr objs \<and> length objs = length objects \<and>
           (\<forall>i < length objects.
              Labels (objs ! i) ''core.rukpak.io/owner-kind'' = Some ''BundleInstance'' \<and>
              Labels (objs ! i) ''core.rukpak.io/owner-name'' = Some (Name bi) \<and>
              (\<forall>k. k \<noteq> ''core.rukpak.io/owner-kind'' \<and> k \<noteq> ''core.rukpak.io/owner-name'' \<longrightarrow>
                 Labels (objs ! i) k = Labels (objects ! i) k) \<and>
              dom (Labels (objs ! i)) =
                dom (Labels (objects ! i)) \<union>
                  {''core.rukpak.io/owner-kind'', ''core.rukpak.io/owner-name''} \<and>
              objs ! i = (objects ! i)\<lparr>Labels := Labels (objs ! i)\<rparr>)"
proof -
  let ?objs = "map (\<lambda>obj. obj\<lparr>Labels := MergeMaps (Labels obj) (ownerLabels bi)\<rparr>) objects"
  from assms have "loadBundle e bi = Inr ?objs" by (simp add: loadBundle_def)
  moreover have "length ?objs = length objects" by simp
  moreover have "\<forall>i < length objects.
      Labels (?objs ! i) ''core.rukpak.io/owner-kind'' = Some ''BundleInstance'' \<and>
      Labels (?objs ! i) ''core.rukpak.io/owner-name'' = Some (Name bi) \<and>
      (\<forall>k. k \<noteq> ''core.rukpak.io/owner-kind'' \<and> k \<noteq> ''core.rukpak.io/owner-name'' \<longrightarrow>
         Labels (?objs ! i) k = Labels (objects ! i) k) \<and>
      dom (Labels (?objs ! i)) =
        dom (Labels (objects ! i)) \<union>
          {''core.rukpak.io/owner-kind'', ''core.rukpak.io/owner-name''} \<and>
      ?objs ! i = (objects ! i)\<lparr>Labels := Labels (?objs ! i)\<rparr>"
    by (simp add: MergeMaps_ownerLabels)
  ultimately show ?thesis by blast
qed

theorem loadBundle_owner_labels_witness:
  "\<exists>objs.
     loadBundle
       (cluster (Inr inst_a) (Inr (pkg_a PhaseUnpacked))
          (helm (Inl ErrReleaseNotFound) (Inl ErrReleaseNotFound) None) None None)
       inst_a = Inr objs \<and>
     length objs = 2 \<and>
     Labels (objs ! 0) ''core.rukpak.io/owner-kind'' = Some ''BundleInstance'' \<and>
     Labels (objs ! 0) ''core.rukpak.io/owner-name'' = Some ''inst-a'' \<and>
     Labels (objs ! 0) ''app'' = Some ''a'' \<and>
     dom (Labels (objs ! 1)) = {''core.rukpak.io/owner-kind'', ''core.rukpak.io/owner-name''}"
proof -
  let ?e = "cluster (Inr inst_a) (Inr (pkg_a PhaseUnpacked))
              (helm (Inl ErrReleaseNotFound) (Inl ErrReleaseNotFound) None) None None"
  have h: "loadGetBundle ?e (Spec_BundleName inst_a) = Inr (pkg_a PhaseUnpacked)"
    "Phase (pkg_a PhaseUnpacked) = PhaseUnpacked"
    "storageLoad ?e (pkg_a PhaseUnpacked) = Inr [cm_a, cm_b]"
    by (simp_all add: cluster_def pkg_a_def)
  from loadBundle_owner_labels [OF h] obtain objs where
    A: "loadBundle ?e inst_a = Inr objs \<and> length objs = length [cm_a, cm_b] \<and>
      (\<forall>i < length [cm_a, cm_b].
         Labels (objs ! i) ''core.rukpak.io/owner-kind'' = Some ''BundleInstance'' \<and>
         Labels (objs ! i) ''core.rukpak.io/owner-name'' = Some (Name inst_a) \<and>
         (\<forall>k. k \<noteq> ''core.rukpak.io/owner-kind'' \<and> k \<noteq> ''core.rukpak.io/owner-name'' \<longrightarrow>
            Labels (objs ! i) k = Labels ([cm_a, cm_b] ! i) k) \<and>
         dom (Labels (objs ! i)) =
           dom (Labels ([cm_a, cm_b] ! i)) \<union>
             {''core.rukpak.io/owner-kind'', ''core.rukpak.io/owner-name''} \<and>
         objs ! i = ([cm_a, cm_b] ! i)\<lparr>Labels := Labels (objs ! i)\<rparr>)" ..
  note l = A [THEN conjunct1]
  have len: "length objs = 2" using A [THEN conjunct2, THEN conjunct1] by simp
  note q = A [THEN conjunct2, THEN conjunct2, rule_format]
  have q0: "(0::nat) < length [cm_a, cm_b]" and q1: "(1::nat) < length [cm_a, cm_b]"
    by simp_all
  have kind: "Labels (objs ! 0) ''core.rukpak.io/owner-kind'' = Some ''BundleInstance''"
    by (rule q [OF q0, THEN conjunct1])
  have name: "Labels (objs ! 0) ''core.rukpak.io/owner-name'' = Some ''inst-a''"
    using q [OF q0, THEN conjunct2, THEN conjunct1] by (simp add: inst_a_def)
  have app: "Labels (objs ! 0) ''app'' = Some ''a''"
    using q [OF q0, THEN conjunct2, THEN conjunct2, THEN conjunct1, rule_format, of "''app''"]
    by (simp add: cm_a_def)
  have d: "dom (Labels (objs ! 1)) = {''core.rukpak.io/owner-kind'', ''core.rukpak.io/owner-name''}"
    using q [OF q1, THEN conjunct2, THEN conjunct2, THEN conjunct2, THEN conjunct1]
    by (simp add: cm_b_def)
  from l len kind name app d show ?thesis by (intro exI [of _ objs] conjI)
qed

subsection \<open>C7: template names\<close>

text \<open>
  Claim C7. The name of a template is \<^verbatim>\<open>object-\<close>, the lower-case hexadecimal digits of the
  first 8 bytes of the SHA-256 digest of the object's serialized bytes, and \<^verbatim>\<open>.yaml\<close>: 28
  characters for a 32-byte digest, and a function of those bytes and of nothing else. The
  chart of a bundle holds one template per object, in the order of the objects, each with the
  serialized bytes as data; two objects with the same serialized bytes get the same name.
\<close>

theorem chart_template_names:
  "templateName e d = ''object-'' @ hexEncode (take 8 (Sum256 e d)) @ ''.yaml'' \<and>
   (length (Sum256 e d) = 32 \<longrightarrow> length (templateName e d) = 28) \<and>
   (Sum256 e = Sum256 e' \<longrightarrow> templateName e d = templateName e' d) \<and>
   (\<forall>chrt. materialize e \<lparr>Templates = []\<rparr> objs = Inr chrt \<longrightarrow>
      (\<exists>ds. map (yamlMarshal e) objs = map Inr ds \<and>
         Templates chrt = map (\<lambda>d. \<lparr>File_Name = templateName e d, File_Data = d\<rparr>) ds \<and>
         (\<forall>i j. i < length ds \<and> j < length ds \<and> ds ! i = ds ! j \<longrightarrow>
            File_Name (Templates chrt ! i) = File_Name (Templates chrt ! j))))"
proof (intro conjI allI impI)
  show "templateName e d = ''object-'' @ hexEncode (take 8 (Sum256 e d)) @ ''.yaml''"
    by (simp add: templateName_def)
next
  assume "length (Sum256 e d) = 32"
  then show "length (templateName e d) = 28"
    by (simp add: templateName_def length_hexEncode)
next
  assume "Sum256 e = Sum256 e'"
  then show "templateName e d = templateName e' d" by (simp add: templateName_def)
next
  fix chrt
  assume "materialize e \<lparr>Templates = []\<rparr> objs = Inr chrt"
  from materialize_templates [OF this] obtain ds where
    ds: "map (yamlMarshal e) objs = map Inr ds"
      "Templates chrt = map (\<lambda>d. \<lparr>File_Name = templateName e d, File_Data = d\<rparr>) ds"
    by auto
  then have "\<forall>i j. i < length ds \<and> j < length ds \<and> ds ! i = ds ! j \<longrightarrow>
      File_Name (Templates chrt ! i) = File_Name (Templates chrt ! j)"
    by simp
  with ds show "\<exists>ds. map (yamlMarshal e) objs = map Inr ds \<and>
         Templates chrt = map (\<lambda>d. \<lparr>File_Name = templateName e d, File_Data = d\<rparr>) ds \<and>
         (\<forall>i j. i < length ds \<and> j < length ds \<and> ds ! i = ds ! j \<longrightarrow>
            File_Name (Templates chrt ! i) = File_Name (Templates chrt ! j))"
    by blast
qed

theorem chart_template_names_witness:
  "templateName
     (cluster (Inr inst_a) (Inr (pkg_a PhaseUnpacked))
        (helm (Inl ErrReleaseNotFound) (Inl ErrReleaseNotFound) None) None None)
     (map of_char ''cm-a'') = ''object-5e00000000000000.yaml'' \<and>
   length (templateName
     (cluster (Inr inst_a) (Inr (pkg_a PhaseUnpacked))
        (helm (Inl ErrReleaseNotFound) (Inl ErrReleaseNotFound) None) None None)
     (map of_char ''cm-a'')) = 28 \<and>
   (\<exists>chrt.
      materialize
        (cluster (Inr inst_a) (Inr (pkg_a PhaseUnpacked))
           (helm (Inl ErrReleaseNotFound) (Inl ErrReleaseNotFound) None) None None)
        \<lparr>Templates = []\<rparr> [cm_a, cm_b, cm_a] = Inr chrt \<and>
      map File_Name (Templates chrt)
      = [''object-5e00000000000000.yaml'', ''object-5f00000000000000.yaml'',
         ''object-5e00000000000000.yaml''])"
proof -
  let ?e = "cluster (Inr inst_a) (Inr (pkg_a PhaseUnpacked))
              (helm (Inl ErrReleaseNotFound) (Inl ErrReleaseNotFound) None) None None"
  note names = chart_template_names [where e = ?e and e' = ?e and objs = "[cm_a, cm_b, cm_a]"]
  have a: "templateName ?e (map of_char ''cm-a'') = ''object-5e00000000000000.yaml''"
    using names [where d = "map of_char ''cm-a''", THEN conjunct1]
    by (simp add: cluster_def hexDigit_def replicate_numeral)
  have b: "templateName ?e (map of_char ''cm-b'') = ''object-5f00000000000000.yaml''"
    using names [where d = "map of_char ''cm-b''", THEN conjunct1]
    by (simp add: cluster_def hexDigit_def replicate_numeral)
  have len: "length (templateName ?e (map of_char ''cm-a'')) = 28"
    using names [where d = "map of_char ''cm-a''", THEN conjunct2, THEN conjunct1]
    by (simp add: cluster_def)
  obtain chrt where m: "materialize ?e \<lparr>Templates = []\<rparr> [cm_a, cm_b, cm_a] = Inr chrt"
    by (simp add: cluster_def)
  from names [where d = "[]", THEN conjunct2, THEN conjunct2, THEN conjunct2, rule_format, OF m]
  obtain ds where ds: "map (yamlMarshal ?e) [cm_a, cm_b, cm_a] = map Inr ds"
    and t: "Templates chrt = map (\<lambda>d. \<lparr>File_Name = templateName ?e d, File_Data = d\<rparr>) ds"
    by blast
  from ds have "ds = [map of_char ''cm-a'', map of_char ''cm-b'', map of_char ''cm-a'']"
    by (auto simp: cluster_def cm_a_def cm_b_def map_eq_Cons_conv)
  with t have "map File_Name (Templates chrt) =
      [templateName ?e (map of_char ''cm-a''), templateName ?e (map of_char ''cm-b''),
       templateName ?e (map of_char ''cm-a'')]"
    by simp
  then have "map File_Name (Templates chrt) =
      [''object-5e00000000000000.yaml'', ''object-5f00000000000000.yaml'',
       ''object-5e00000000000000.yaml'']"
    unfolding a b .
  with m have "\<exists>chrt. materialize ?e \<lparr>Templates = []\<rparr> [cm_a, cm_b, cm_a] = Inr chrt \<and>
      map File_Name (Templates chrt) =
      [''object-5e00000000000000.yaml'', ''object-5f00000000000000.yaml'',
       ''object-5e00000000000000.yaml'']"
    by (intro exI [of _ chrt] conjI)
  with a len show ?thesis by (intro conjI)
qed

subsection \<open>C8: distinct objects and their template names\<close>

text \<open>
  Claim C8 as stated, "the name derived from the truncated digest prefix is injective over
  the distinct objects of a bundle", does not hold. A name has at most 28 characters, so
  there are finitely many names; whatever the digest function is, there is a bundle of two
  objects with different serialized bytes whose templates get the same name.
\<close>

theorem templateName_injective_counterexample:
  "\<forall>h. \<exists>e d1 d2 chrt t1 t2.
     Sum256 e = h \<and> yamlMarshal e cm_a = Inr d1 \<and> yamlMarshal e cm_b = Inr d2 \<and> d1 \<noteq> d2 \<and>
     materialize e \<lparr>Templates = []\<rparr> [cm_a, cm_b] = Inr chrt \<and>
     Templates chrt = [t1, t2] \<and> File_Data t1 = d1 \<and> File_Data t2 = d2 \<and>
     File_Name t1 = File_Name t2"
proof
  fix h :: "byte list \<Rightarrow> byte list"
  let ?e0 = "(cluster (Inr inst_a) (Inr (pkg_a PhaseUnpacked))
                (helm (Inl ErrReleaseNotFound) (Inl ErrReleaseNotFound) None) None None)
             \<lparr>Sum256 := h\<rparr>"
  obtain d1 d2 where d: "d1 \<noteq> d2" "templateName ?e0 d1 = templateName ?e0 d2"
    using templateName_collision [of ?e0] by blast
  let ?e = "?e0\<lparr>yamlMarshal := \<lambda>obj. Inr (if Object_Name obj = ''cm-a'' then d1 else d2)\<rparr>"
  let ?t1 = "\<lparr>File_Name = templateName ?e d1, File_Data = d1\<rparr>"
  let ?t2 = "\<lparr>File_Name = templateName ?e d2, File_Data = d2\<rparr>"
  have same: "templateName ?e d1 = templateName ?e d2"
    using d(2) by (simp add: templateName_def)
  have m: "materialize ?e \<lparr>Templates = []\<rparr> [cm_a, cm_b] = Inr \<lparr>Templates = [?t1, ?t2]\<rparr>"
    by (simp add: cm_a_def cm_b_def)
  have "Sum256 ?e = h" "yamlMarshal ?e cm_a = Inr d1" "yamlMarshal ?e cm_b = Inr d2"
    by (simp_all add: cm_a_def cm_b_def)
  with d(1) m same
  show "\<exists>e d1 d2 chrt t1 t2.
     Sum256 e = h \<and> yamlMarshal e cm_a = Inr d1 \<and> yamlMarshal e cm_b = Inr d2 \<and> d1 \<noteq> d2 \<and>
     materialize e \<lparr>Templates = []\<rparr> [cm_a, cm_b] = Inr chrt \<and>
     Templates chrt = [t1, t2] \<and> File_Data t1 = d1 \<and> File_Data t2 = d2 \<and>
     File_Name t1 = File_Name t2"
    by (intro exI [of _ ?e] exI [of _ d1] exI [of _ d2] exI [of _ "\<lparr>Templates = [?t1, ?t2]\<rparr>"]
          exI [of _ ?t1] exI [of _ ?t2] conjI) simp_all
qed

text \<open>
  Claim C8, amended. Two objects of a bundle get the same template name exactly when the
  digests of their serialized bytes agree on the first 8 bytes. So objects get different
  names whenever the 8-byte prefixes of their digests differ; the code has no check for a
  collision of the prefix.
\<close>

theorem chart_template_names_distinct:
  "(templateName e d1 = templateName e d2 \<longleftrightarrow> take 8 (Sum256 e d1) = take 8 (Sum256 e d2)) \<and>
   (\<forall>chrt. materialize e \<lparr>Templates = []\<rparr> objs = Inr chrt \<longrightarrow>
      (\<exists>ds. map (yamlMarshal e) objs = map Inr ds \<and> length (Templates chrt) = length ds \<and>
         (\<forall>i j. i < length ds \<and> j < length ds \<longrightarrow>
            (File_Name (Templates chrt ! i) = File_Name (Templates chrt ! j) \<longleftrightarrow>
             take 8 (Sum256 e (ds ! i)) = take 8 (Sum256 e (ds ! j))))))"
proof (intro conjI allI impI)
  show "templateName e d1 = templateName e d2 \<longleftrightarrow> take 8 (Sum256 e d1) = take 8 (Sum256 e d2)"
    by (rule templateName_eq_iff)
next
  fix chrt
  assume "materialize e \<lparr>Templates = []\<rparr> objs = Inr chrt"
  from materialize_templates [OF this] obtain ds where
    ds: "map (yamlMarshal e) objs = map Inr ds"
      "Templates chrt = map (\<lambda>d. \<lparr>File_Name = templateName e d, File_Data = d\<rparr>) ds"
    by auto
  then have "length (Templates chrt) = length ds"
    "\<forall>i j. i < length ds \<and> j < length ds \<longrightarrow>
       (File_Name (Templates chrt ! i) = File_Name (Templates chrt ! j) \<longleftrightarrow>
        take 8 (Sum256 e (ds ! i)) = take 8 (Sum256 e (ds ! j)))"
    by (simp_all add: templateName_eq_iff)
  with ds(1) show "\<exists>ds. map (yamlMarshal e) objs = map Inr ds \<and>
      length (Templates chrt) = length ds \<and>
      (\<forall>i j. i < length ds \<and> j < length ds \<longrightarrow>
         (File_Name (Templates chrt ! i) = File_Name (Templates chrt ! j) \<longleftrightarrow>
          take 8 (Sum256 e (ds ! i)) = take 8 (Sum256 e (ds ! j))))"
    by blast
qed

theorem chart_template_names_distinct_witness:
  "\<exists>chrt.
     materialize
       (cluster (Inr inst_a) (Inr (pkg_a PhaseUnpacked))
          (helm (Inl ErrReleaseNotFound) (Inl ErrReleaseNotFound) None) None None)
       \<lparr>Templates = []\<rparr> [cm_a, cm_b] = Inr chrt \<and>
     length (Templates chrt) = 2 \<and>
     File_Name (Templates chrt ! 0) \<noteq> File_Name (Templates chrt ! 1)"
proof -
  let ?e = "cluster (Inr inst_a) (Inr (pkg_a PhaseUnpacked))
              (helm (Inl ErrReleaseNotFound) (Inl ErrReleaseNotFound) None) None None"
  obtain chrt where m: "materialize ?e \<lparr>Templates = []\<rparr> [cm_a, cm_b] = Inr chrt"
    by (simp add: cluster_def)
  from chart_template_names_distinct [of ?e _ _ "[cm_a, cm_b]"] m obtain ds where
    ds: "map (yamlMarshal ?e) [cm_a, cm_b] = map Inr ds" "length (Templates chrt) = length ds"
    and iff: "\<forall>i j. i < length ds \<and> j < length ds \<longrightarrow>
       (File_Name (Templates chrt ! i) = File_Name (Templates chrt ! j) \<longleftrightarrow>
        take 8 (Sum256 ?e (ds ! i)) = take 8 (Sum256 ?e (ds ! j)))"
    by blast
  from ds(1) have d: "ds = [map of_char ''cm-a'', map of_char ''cm-b'']"
    by (auto simp: cluster_def cm_a_def cm_b_def map_eq_Cons_conv)
  with iff have "File_Name (Templates chrt ! 0) = File_Name (Templates chrt ! 1) \<longleftrightarrow>
      take 8 (Sum256 ?e (ds ! 0)) = take 8 (Sum256 ?e (ds ! 1))"
    by simp
  with d have "File_Name (Templates chrt ! 0) \<noteq> File_Name (Templates chrt ! 1)"
    by (simp add: cluster_def)
  with m ds(2) d show ?thesis by simp
qed

subsection \<open>C9: the deferred status patch\<close>

text \<open>
  Claim C9 as stated, "on every exit path a status patch is attempted exactly once", fails on
  the first exit of \<^verbatim>\<open>Reconcile\<close>: when the BundleInstance itself cannot be fetched (line 94)
  the function returns before the patch is deferred (line 96), and no patch is attempted.
\<close>

theorem Reconcile_status_patch_counterexample:
  "Reconcile
     (cluster (Inl (ErrorString ''connection refused'')) (Inr (pkg_a PhaseUnpacked))
        (helm (Inl ErrReleaseNotFound) (Inl ErrReleaseNotFound) None) None None)
     reconciler ''inst-a''
   = (Some (ErrorString ''connection refused''), None, reconciler, []) \<and>
   length (filter isStatusPatch (snd (snd (snd
     (Reconcile
        (cluster (Inl (ErrorString ''connection refused'')) (Inr (pkg_a PhaseUnpacked))
           (helm (Inl ErrReleaseNotFound) (Inl ErrReleaseNotFound) None) None None)
        reconciler ''inst-a''))))) = 0"
  by (simp add: Reconcile_def cluster_def IgnoreNotFound_def)

text \<open>
  Claim C9, amended. On every exit path of a pass whose BundleInstance was fetched, the
  status patch is attempted exactly once, as the last call of the pass, on a copy of the
  BundleInstance as the pass left it (with its conditions and installed bundle name) without
  the managed fields; a patch error is logged. The returned error, the BundleInstance and the
  watched kinds are the same whatever the patch returns. When the fetch of the
  BundleInstance fails, no patch is attempted and the fetch error is returned, nil when it
  is a not-found error.
\<close>

theorem Reconcile_status_patch:
  "(\<forall>bi. getBundleInstance e req = Inr bi \<longrightarrow>
      (\<exists>ret bi' r' tr0.
         Reconcile e r req = (ret, Some bi', r', tr0 @ deferredPatch e bi') \<and>
         (\<forall>ev \<in> set tr0. \<not> isStatusPatch ev) \<and>
         filter isStatusPatch (tr0 @ deferredPatch e bi') =
           [StatusPatchCalled (bi'\<lparr>ManagedFields := []\<rparr>)
              (statusPatch e (bi'\<lparr>ManagedFields := []\<rparr>))] \<and>
         (\<forall>err. statusPatch e (bi'\<lparr>ManagedFields := []\<rparr>) = Some err \<longrightarrow>
            last (deferredPatch e bi') = LogError ''failed to patch status'' err) \<and>
         (\<forall>p. Reconcile (e\<lparr>statusPatch := p\<rparr>) r req =
            (ret, Some bi', r', tr0 @ deferredPatch (e\<lparr>statusPatch := p\<rparr>) bi')))) \<and>
   (\<forall>err. getBundleInstance e req = Inl err \<longrightarrow>
      Reconcile e r req = (IgnoreNotFound err, None, r, []))"
proof (intro conjI allI impI)
  fix bi
  assume g: "getBundleInstance e req = Inr bi"
  obtain ret bi' gvks tr0 where p: "reconcileBundleInstance e r bi = (ret, bi', gvks, tr0)"
    by (cases "reconcileBundleInstance e r bi") auto
  from g p have R:
    "Reconcile e r req = (ret, Some bi', r\<lparr>dynamicWatchGVKs := gvks\<rparr>, tr0 @ deferredPatch e bi')"
    by (simp add: Reconcile_def)
  from reconcileBundleInstance_inv [of bi e r] p have np: "\<forall>ev \<in> set tr0. \<not> isStatusPatch ev"
    by (simp add: passInv_def)
  then have "filter isStatusPatch tr0 = []" by (simp add: filter_empty_conv)
  then have once: "filter isStatusPatch (tr0 @ deferredPatch e bi') =
      [StatusPatchCalled (bi'\<lparr>ManagedFields := []\<rparr>) (statusPatch e (bi'\<lparr>ManagedFields := []\<rparr>))]"
    by (simp add: deferredPatch_once)
  have logged: "\<forall>err. statusPatch e (bi'\<lparr>ManagedFields := []\<rparr>) = Some err \<longrightarrow>
      last (deferredPatch e bi') = LogError ''failed to patch status'' err"
    by (simp add: deferredPatch_def)
  have indep: "\<forall>p. Reconcile (e\<lparr>statusPatch := p\<rparr>) r req =
      (ret, Some bi', r\<lparr>dynamicWatchGVKs := gvks\<rparr>, tr0 @ deferredPatch (e\<lparr>statusPatch := p\<rparr>) bi')"
    using g p by (simp add: Reconcile_def reconcileBundleInstance_statusPatch)
  from R np once logged indep
  show "\<exists>ret bi' r' tr0.
         Reconcile e r req = (ret, Some bi', r', tr0 @ deferredPatch e bi') \<and>
         (\<forall>ev \<in> set tr0. \<not> isStatusPatch ev) \<and>
         filter isStatusPatch (tr0 @ deferredPatch e bi') =
           [StatusPatchCalled (bi'\<lparr>ManagedFields := []\<rparr>)
              (statusPatch e (bi'\<lparr>ManagedFields := []\<rparr>))] \<and>
         (\<forall>err. statusPatch e (bi'\<lparr>ManagedFields := []\<rparr>) = Some err \<longrightarrow>
            last (deferredPatch e bi') = LogError ''failed to patch status'' err) \<and>
         (\<forall>p. Reconcile (e\<lparr>statusPatch := p\<rparr>) r req =
            (ret, Some bi', r', tr0 @ deferredPatch (e\<lparr>statusPatch := p\<rparr>) bi'))"
    by blast
next
  fix err
  assume "getBundleInstance e req = Inl err"
  then show "Reconcile e r req = (IgnoreNotFound err, None, r, [])"
    by (simp add: Reconcile_def)
qed

theorem Reconcile_status_patch_witness:
  "(\<exists>ret bi' r' tr0.
      Reconcile
        (cluster (Inr inst_a) (Inl (StatusNotFound ''bundle pkg-a not found''))
           (helm (Inl ErrReleaseNotFound) (Inl ErrReleaseNotFound) None) None
           (Some (ErrorString ''conflict'')))
        reconciler ''inst-a''
      = (ret, Some bi', r',
         tr0 @ [StatusPatchCalled (bi'\<lparr>ManagedFields := []\<rparr>) (Some (ErrorString ''conflict'')),
                LogError ''failed to patch status'' (ErrorString ''conflict'')]) \<and>
      (\<forall>ev \<in> set tr0. \<not> isStatusPatch ev) \<and>
      Reconcile
        (cluster (Inr inst_a) (Inl (StatusNotFound ''bundle pkg-a not found''))
           (helm (Inl ErrReleaseNotFound) (Inl ErrReleaseNotFound) None) None None)
        reconciler ''inst-a''
      = (ret, Some bi', r', tr0 @ [StatusPatchCalled (bi'\<lparr>ManagedFields := []\<rparr>) None])) \<and>
   Reconcile
     (cluster (Inl (StatusNotFound ''inst-a not found'')) (Inr (pkg_a PhaseUnpacked))
        (helm (Inl ErrReleaseNotFound) (Inl ErrReleaseNotFound) None) None None)
     reconciler ''inst-a'' = (None, None, reconciler, [])"
proof -
  let ?cl = "helm (Inl ErrReleaseNotFound) (Inl ErrReleaseNotFound) None"
  let ?e = "cluster (Inr inst_a) (Inl (StatusNotFound ''bundle pkg-a not found'')) ?cl None
              (Some (ErrorString ''conflict''))"
  let ?e' = "cluster (Inr inst_a) (Inl (StatusNotFound ''bundle pkg-a not found'')) ?cl None None"
  let ?f = "cluster (Inl (StatusNotFound ''inst-a not found'')) (Inr (pkg_a PhaseUnpacked)) ?cl
              None None"
  have g: "getBundleInstance ?e ''inst-a'' = Inr inst_a" by (simp add: cluster_def)
  have upd: "?e\<lparr>statusPatch := \<lambda>bi. None\<rparr> = ?e'" by (simp add: cluster_def)
  from Reconcile_status_patch [of ?e "''inst-a''" reconciler] g
  obtain ret bi' r' tr0 where
    R: "Reconcile ?e reconciler ''inst-a'' = (ret, Some bi', r', tr0 @ deferredPatch ?e bi')"
    and np: "\<forall>ev \<in> set tr0. \<not> isStatusPatch ev"
    and ind: "\<forall>p. Reconcile (?e\<lparr>statusPatch := p\<rparr>) reconciler ''inst-a'' =
           (ret, Some bi', r', tr0 @ deferredPatch (?e\<lparr>statusPatch := p\<rparr>) bi')"
    by blast
  from ind have "Reconcile (?e\<lparr>statusPatch := \<lambda>bi. None\<rparr>) reconciler ''inst-a'' =
      (ret, Some bi', r', tr0 @ deferredPatch (?e\<lparr>statusPatch := \<lambda>bi. None\<rparr>) bi')"
    by blast
  then have R': "Reconcile ?e' reconciler ''inst-a'' =
      (ret, Some bi', r', tr0 @ [StatusPatchCalled (bi'\<lparr>ManagedFields := []\<rparr>) None])"
    unfolding upd by (simp add: deferredPatch_def cluster_def)
  from R have R0: "Reconcile ?e reconciler ''inst-a'' =
      (ret, Some bi', r',
       tr0 @ [StatusPatchCalled (bi'\<lparr>ManagedFields := []\<rparr>) (Some (ErrorString ''conflict'')),
              LogError ''failed to patch status'' (ErrorString ''conflict'')])"
    by (simp add: deferredPatch_def cluster_def)
  have F: "Reconcile ?f reconciler ''inst-a'' = (None, None, reconciler, [])"
    using Reconcile_status_patch [of ?f "''inst-a''" reconciler]
    by (simp add: cluster_def IgnoreNotFound_def)
  from R0 np R' F show ?thesis by blast
qed

subsection \<open>C10: the Bundle cannot be fetched\<close>

text \<open>
  Claim C10. When the BundleInstance is fetched and the first fetch of its Bundle fails,
  \<^verbatim>\<open>Reconcile\<close> sets the HasValidBundle condition with reason \<^verbatim>\<open>BundleLookupFailed\<close> and the
  error's message; the status is False when the error is a not-found error and Unknown
  otherwise. It returns a nil error when the error is a not-found error and the error itself
  otherwise.
\<close>

theorem Reconcile_bundle_lookup_failed:
  assumes "getBundleInstance e req = Inr bi"
      and "getBundle e (Spec_BundleName bi) = Inl err"
  shows "\<exists>bi' tr.
           Reconcile e r req = (if IsNotFound err then None else Some err, Some bi', r, tr) \<and>
           FindStatusCondition (Status_Conditions bi') TypeHasValidBundle =
             Some \<lparr>Type = TypeHasValidBundle,
                   Status = (if IsNotFound err then ConditionFalse else ConditionUnknown),
                   Reason = ReasonBundleLookupFailed, Message = Error err\<rparr>"
  using assms
  by (simp add: Reconcile_def reconcileBundleInstance_def IgnoreNotFound_def
        find_setCondition_same)

theorem Reconcile_bundle_lookup_failed_witness:
  "(\<exists>bi' tr.
      Reconcile
        (cluster (Inr inst_a) (Inl (StatusNotFound ''bundle pkg-a not found'')) (helm (Inl ErrReleaseNotFound) (Inl ErrReleaseNotFound) None) None None)
        reconciler ''inst-a'' = (None, Some bi', reconciler, tr) \<and>
      FindStatusCondition (Status_Conditions bi') TypeHasValidBundle =
        Some \<lparr>Type = TypeHasValidBundle, Status = ConditionFalse,
              Reason = ReasonBundleLookupFailed, Message = ''bundle pkg-a not found''\<rparr>) \<and>
   (\<exists>bi' tr.
      Reconcile
        (cluster (Inr inst_a) (Inl (ErrorString ''connection refused'')) (helm (Inl ErrReleaseNotFound) (Inl ErrReleaseNotFound) None) None None)
        reconciler ''inst-a'' = (Some (ErrorString ''connection refused''), Some bi', reconciler, tr) \<and>
      FindStatusCondition (Status_Conditions bi') TypeHasValidBundle =
        Some \<lparr>Type = TypeHasValidBundle, Status = ConditionUnknown,
              Reason = ReasonBundleLookupFailed, Message = ''connection refused''\<rparr>)"
  using
    Reconcile_bundle_lookup_failed [where r = reconciler and req = "''inst-a''" and bi = inst_a
      and err = "StatusNotFound ''bundle pkg-a not found''"
      and e = "cluster (Inr inst_a) (Inl (StatusNotFound ''bundle pkg-a not found'')) (helm (Inl ErrReleaseNotFound) (Inl ErrReleaseNotFound) None) None None"]
    Reconcile_bundle_lookup_failed [where r = reconciler and req = "''inst-a''" and bi = inst_a
      and err = "ErrorString ''connection refused''"
      and e = "cluster (Inr inst_a) (Inl (ErrorString ''connection refused'')) (helm (Inl ErrReleaseNotFound) (Inl ErrReleaseNotFound) None) None None"]
  by (fastforce simp: cluster_def)

section \<open>Further properties\<close>

text \<open>
  Invariant 1 of the spec. A pass makes an install, upgrade or reconcile call only
  when the BundleInstance was fetched and \<^verbatim>\<open>loadBundle\<close> fetched its Bundle in phase
  Unpacked.
\<close>

theorem apply_only_when_unpacked:
  assumes "Reconcile e r req = (ret, obi, r', tr)"
      and "\<exists>ev \<in> set tr. applyCalled ev"
  shows "\<exists>bi b. getBundleInstance e req = Inr bi \<and>
           loadGetBundle e (Spec_BundleName bi) = Inr b \<and> Phase b = PhaseUnpacked"
proof (cases "getBundleInstance e req")
  case (Inl err)
  with assms show ?thesis by (auto simp: Reconcile_def)
next
  case (Inr bi)
  obtain ret0 bi' gvks0 tr0 where p: "reconcileBundleInstance e r bi = (ret0, bi', gvks0, tr0)"
    by (cases "reconcileBundleInstance e r bi") auto
  with assms(1) Inr have tr: "tr = tr0 @ deferredPatch e bi'" by (auto simp: Reconcile_def)
  have "\<forall>ev \<in> set (deferredPatch e bi'). \<not> applyCalled ev"
    by (cases "statusPatch e (bi'\<lparr>ManagedFields := []\<rparr>)") (simp_all add: deferredPatch_def)
  with assms(2) tr have "tr0 \<noteq> []" by auto
  from reconcileBundleInstance_effects_loaded [OF p this] obtain objs where
    "loadBundle e bi = Inr objs" by blast
  from loadBundle_unpacked [OF this] Inr show ?thesis by blast
qed

theorem apply_only_when_unpacked_witness:
  "\<exists>bi b.
     getBundleInstance
       (cluster (Inr inst_a) (Inr (pkg_a PhaseUnpacked))
          (helm (Inl ErrReleaseNotFound) (Inl ErrReleaseNotFound) (Some (ErrorString ''quota''))) None None)
       ''inst-a'' = Inr bi \<and>
     loadGetBundle
       (cluster (Inr inst_a) (Inr (pkg_a PhaseUnpacked))
          (helm (Inl ErrReleaseNotFound) (Inl ErrReleaseNotFound) (Some (ErrorString ''quota''))) None None)
       (Spec_BundleName bi) = Inr b \<and>
     Phase b = PhaseUnpacked"
proof -
  let ?e = "cluster (Inr inst_a) (Inr (pkg_a PhaseUnpacked))
          (helm (Inl ErrReleaseNotFound) (Inl ErrReleaseNotFound) (Some (ErrorString ''quota''))) None None"
  obtain ret obi r' tr where R: "Reconcile ?e reconciler ''inst-a'' = (ret, obi, r', tr)"
    by (cases "Reconcile ?e reconciler ''inst-a''") auto
  then have "\<exists>ev \<in> set tr. applyCalled ev"
    by (auto simp: scenario_defs reconcile_defs)
  from apply_only_when_unpacked [OF R this] show ?thesis .
qed

text \<open>
  The spec's end-to-end scenarios A, B and C, one pass after the other. The first
  pass finds no release: it installs a chart of two templates, subscribes to the one kind of
  the two objects, and records Installed=True/InstallationSucceeded and the installed bundle
  name. The second finds the release deployed with the manifest the dry run renders: it only
  re-asserts the release, with no install, no upgrade and no new subscription. The third
  finds a different dry-run manifest and upgrades once.
\<close>

theorem scenarios_A_B_C:
  "reconcileAll
     [(cluster (Inr inst_a) (Inr (pkg_a PhaseUnpacked))
         (helm (Inl ErrReleaseNotFound) (Inl ErrReleaseNotFound) None) None None, ''inst-a''),
      (cluster (Inr inst_a_installed) (Inr (pkg_a PhaseUnpacked))
         (helm (Inr (release_a ''m1'' StatusDeployed)) (Inr (release_a ''m1'' StatusDeployed)) None)
         None None, ''inst-a''),
      (cluster (Inr inst_a_installed) (Inr (pkg_a PhaseUnpacked))
         (helm (Inr (release_a ''m1'' StatusDeployed)) (Inr (release_a ''m2'' StatusDeployed)) None)
         None None, ''inst-a'')]
     reconciler
   = (reconciler\<lparr>dynamicWatchGVKs := {configMap}\<rparr>,
      [InstallCalled ''inst-a'' ''rukpak-system''
         \<lparr>Templates =
            [\<lparr>File_Name = ''object-5e00000000000000.yaml'', File_Data = map of_char ''cm-a''\<rparr>,
             \<lparr>File_Name = ''object-5f00000000000000.yaml'', File_Data = map of_char ''cm-b''\<rparr>]\<rparr>
         None,
       WatchCalled configMap None,
       StatusPatchCalled (inst_a_installed\<lparr>ManagedFields := []\<rparr>) None,
       ReconcileCalled (Some (release_a ''m1'' StatusDeployed)) None,
       StatusPatchCalled (inst_a_installed\<lparr>ManagedFields := []\<rparr>) None,
       UpgradeCalled ''inst-a'' ''rukpak-system''
         \<lparr>Templates =
            [\<lparr>File_Name = ''object-5e00000000000000.yaml'', File_Data = map of_char ''cm-a''\<rparr>,
             \<lparr>File_Name = ''object-5f00000000000000.yaml'', File_Data = map of_char ''cm-b''\<rparr>]\<rparr>
         None,
       StatusPatchCalled (inst_a_installed\<lparr>ManagedFields := []\<rparr>) None])"
  by (simp add: scenario_defs reconcile_defs inst_a_installed_def)

end
